theory Spec2Isabelle
  imports Main
begin

section \<open>The provider registry (pkg/resource/deploy/providers/registry.go)\<close>

text \<open>
  A shallow embedding of the provider registry. The registry's own functions are
  translated from registry.go. Everything the registry consumes from elsewhere (the plugin
  host, the workspace, the plugin handles, and the helpers of reference.go and of the
  sdk that are not among the sources) is a field of the record \<open>Env\<close>: a function on an
  abstract state of the outside world \<open>'w\<close>, so that a call may answer differently each
  time it is made. Every call the registry makes to a collaborator is appended to the
  list \<open>calls\<close> of the host, which is how "calls the host" is observed.
  A fatal contract violation (contract.Failf, Assertf, Requiref, a nil dereference) is the
  left injection of the result; an operational error is an \<open>error option\<close> inside the
  returned value, as the Go method returns it.
\<close>

subsection \<open>Values\<close>

type_synonym URN = string
type_synonym ID = string
type_synonym Package = string
type_synonym TypeToken = string
type_synonym PropertyKey = string

text \<open>resource.PropertyValue; the registry only ever asks whether a value is a string.\<close>

datatype PropertyValue =
    NullProperty
  | BoolProperty bool
  | NumberProperty int
  | StringProperty string
  | ArrayProperty "PropertyValue list"
  | ObjectProperty "(PropertyKey \<times> PropertyValue) list"

text \<open>resource.PropertyMap, a Go map. A nil map reads like the empty one; where a method
  returns a map that may be nil, the result is a \<open>PropertyMap option\<close> and \<open>None\<close> is nil.\<close>

type_synonym PropertyMap = "PropertyKey \<rightharpoonup> PropertyValue"

fun IsString :: "PropertyValue \<Rightarrow> bool" where
  "IsString (StringProperty s) = True"
| "IsString _ = False"

text \<open>StringValue is only called behind an IsString test.\<close>

fun StringValue :: "PropertyValue \<Rightarrow> string" where
  "StringValue (StringProperty s) = s"

text \<open>semver.Version: major, minor, patch, pre-release and build tags.\<close>

datatype Version = MkVersion nat nat nat "string list" "string list"

text \<open>
  Go errors. \<open>ErrorString\<close> is errors.New and fmt.Errorf without \<open>%w\<close> (and any
  error of a collaborator that wraps nothing), \<open>WrapError\<close> is fmt.Errorf with \<open>%w\<close>
  (the text before the wrapped error, and the error), \<open>MissingError\<close> is
  *workspace.MissingError, \<open>InstallProviderError\<close> is the struct of registry.go with its
  fields Name, Version, PluginDownloadURL and Err.
\<close>

datatype error =
    ErrorString string
  | MissingError string
  | WrapError string error
  | InstallProviderError string "Version option" string error

text \<open>A fatal contract violation: the process aborts with this message.\<close>

datatype fault = Panic string

text \<open>errors.As(err, &me) for me of type *workspace.MissingError: the Unwrap chain is walked
  (InstallProviderError has an Unwrap method).\<close>

fun As_MissingError :: "error \<Rightarrow> bool" where
  "As_MissingError (ErrorString s) = False"
| "As_MissingError (MissingError s) = True"
| "As_MissingError (WrapError s e) = As_MissingError e"
| "As_MissingError (InstallProviderError n v u e) = As_MissingError e"

text \<open>A plugin.Provider interface value: nil, or a live plugin handle.\<close>

datatype Provider = NilProvider | Plugin nat

record Reference =
  refURN :: URN
  refID :: ID

text \<open>Modelled from the spec: the constant UnknownID of reference.go is not among the
  sources; the spec gives the sentinel "unknown". The theorems below use of its value
  only that it is not the empty id.\<close>

definition UnknownID :: ID where
  "UnknownID = ''unknown''"

definition versionKey :: PropertyKey where
  "versionKey = ''version''"

definition pluginDownloadKey :: PropertyKey where
  "pluginDownloadKey = ''pluginDownloadURL''"

record CheckFailure =
  Property :: PropertyKey
  Reason :: string

datatype DiffChanges = DiffUnknown | DiffNone | DiffSome

datatype DiffKind =
  DiffAdd | DiffAddReplace | DiffDelete | DiffDeleteReplace | DiffUpdate | DiffUpdateReplace

record PropertyDiff =
  Kind :: DiffKind
  InputDiff :: bool

record DiffResult =
  Changes :: DiffChanges
  ReplaceKeys :: "PropertyKey list"
  StableKeys :: "PropertyKey list"
  ChangedKeys :: "PropertyKey list"
  DetailedDiff :: "(string \<times> PropertyDiff) list"
  DeleteBeforeReplace :: bool

datatype Status = StatusOK | StatusPartialFailure | StatusUnknown

text \<open>Modelled from the spec: workspace.PluginKind is a string type and the constant
  workspace.ResourcePlugin is not among the sources; the message contract of the spec
  prints it as "resource".\<close>

type_synonym PluginKind = string

definition ResourcePlugin :: PluginKind where
  "ResourcePlugin = ''resource''"

record PluginSpec =
  spec_Kind :: PluginKind
  spec_Name :: string
  spec_Version :: "Version option"
  spec_PluginDownloadURL :: string
  spec_Checksums :: "(string \<times> nat list) list"

subsection \<open>The collaborators\<close>

text \<open>One entry per call the registry makes to the host, the workspace or a plugin handle,
  with what the call returned.\<close>

datatype event =
    CallProvider Package "Version option" Provider "error option"
  | CallCloseProvider Provider "error option"
  | CallGetLatestVersion PluginSpec "Version option" "error option"
  | CallDownloadToFile PluginSpec string "error option"
  | CallInstall PluginSpec string bool "error option"
  | CallCheckConfig Provider URN "error option"
  | CallDiffConfig Provider URN "error option"
  | CallConfigure Provider "error option"
  | CallNewV4 string "error option"

text \<open>
  What is consumed and not part of registry.go. The first group are pure helpers
  (resource.URN.Type, IsProviderType, GetProviderPackage, the validation done by
  NewReference, semver.ParseTolerant, semver.Version.String, PropertyMap.DeepEquals,
  DiffResult.Replace, Provider.Pkg); the second group are calls that act on the outside
  world: plugin.Host (Provider, CloseProvider), the workspace (GetLatestVersion,
  DownloadToFile, Install), the plugin handles (CheckConfig, DiffConfig, Configure) and
  uuid.NewV4 (with the String of the UUID it returns). host.Log is only reached through
  the two observers handed to DownloadToFile and is part of what that call does to the
  world. The methods of a plugin handle carry the prefix \<open>provider_\<close>: the plain names
  are the registry's own methods.
\<close>

record 'w Env =
  urn_Type :: "URN \<Rightarrow> TypeToken"
  IsProviderType :: "TypeToken \<Rightarrow> bool"
  GetProviderPackage :: "TypeToken \<Rightarrow> Package"
  validateReference :: "URN \<Rightarrow> ID \<Rightarrow> error option"
  ParseTolerant :: "string \<Rightarrow> error + Version"
  VersionString :: "Version \<Rightarrow> string"
  DeepEquals :: "PropertyMap \<Rightarrow> PropertyMap \<Rightarrow> bool"
  Replace :: "DiffResult \<Rightarrow> bool"
  provider_Pkg :: "Provider \<Rightarrow> Package"
  host_Provider :: "'w \<Rightarrow> Package \<Rightarrow> Version option \<Rightarrow> (Provider \<times> error option) \<times> 'w"
  host_CloseProvider :: "'w \<Rightarrow> Provider \<Rightarrow> error option \<times> 'w"
  GetLatestVersion :: "'w \<Rightarrow> PluginSpec \<Rightarrow> (Version option \<times> error option) \<times> 'w"
  DownloadToFile :: "'w \<Rightarrow> PluginSpec \<Rightarrow> (string \<times> error option) \<times> 'w"
  Install :: "'w \<Rightarrow> PluginSpec \<Rightarrow> string \<Rightarrow> bool \<Rightarrow> error option \<times> 'w"
  provider_CheckConfig :: "'w \<Rightarrow> Provider \<Rightarrow> URN \<Rightarrow> PropertyMap \<Rightarrow> PropertyMap \<Rightarrow> bool
                  \<Rightarrow> (PropertyMap option \<times> CheckFailure list \<times> error option) \<times> 'w"
  provider_DiffConfig :: "'w \<Rightarrow> Provider \<Rightarrow> URN \<Rightarrow> PropertyMap \<Rightarrow> PropertyMap \<Rightarrow> bool \<Rightarrow> string list
                  \<Rightarrow> (DiffResult \<times> error option) \<times> 'w"
  provider_Configure :: "'w \<Rightarrow> Provider \<Rightarrow> PropertyMap \<Rightarrow> error option \<times> 'w"
  NewV4 :: "'w \<Rightarrow> (string \<times> error option) \<times> 'w"

text \<open>The plugin host as the registry holds it: the state of the outside world and the
  log of the calls made so far.\<close>

record 'w Host =
  world :: 'w
  calls :: "event list"

definition call_Provider ::
  "'w Env \<Rightarrow> 'w Host \<Rightarrow> Package \<Rightarrow> Version option \<Rightarrow> (Provider \<times> error option) \<times> 'w Host" where
  "call_Provider d h pkg version =
     (case host_Provider d (world h) pkg version of
        ((p, err), w) \<Rightarrow>
          ((p, err), \<lparr>world = w, calls = calls h @ [CallProvider pkg version p err]\<rparr>))"

definition call_CloseProvider ::
  "'w Env \<Rightarrow> 'w Host \<Rightarrow> Provider \<Rightarrow> error option \<times> 'w Host" where
  "call_CloseProvider d h p =
     (case host_CloseProvider d (world h) p of
        (err, w) \<Rightarrow> (err, \<lparr>world = w, calls = calls h @ [CallCloseProvider p err]\<rparr>))"

definition call_GetLatestVersion ::
  "'w Env \<Rightarrow> 'w Host \<Rightarrow> PluginSpec \<Rightarrow> (Version option \<times> error option) \<times> 'w Host" where
  "call_GetLatestVersion d h spec =
     (case GetLatestVersion d (world h) spec of
        ((v, err), w) \<Rightarrow>
          ((v, err), \<lparr>world = w, calls = calls h @ [CallGetLatestVersion spec v err]\<rparr>))"

definition call_DownloadToFile ::
  "'w Env \<Rightarrow> 'w Host \<Rightarrow> PluginSpec \<Rightarrow> (string \<times> error option) \<times> 'w Host" where
  "call_DownloadToFile d h spec =
     (case DownloadToFile d (world h) spec of
        ((file, err), w) \<Rightarrow>
          ((file, err), \<lparr>world = w, calls = calls h @ [CallDownloadToFile spec file err]\<rparr>))"

definition call_Install ::
  "'w Env \<Rightarrow> 'w Host \<Rightarrow> PluginSpec \<Rightarrow> string \<Rightarrow> bool \<Rightarrow> error option \<times> 'w Host" where
  "call_Install d h spec file reinstall =
     (case Install d (world h) spec file reinstall of
        (err, w) \<Rightarrow> (err, \<lparr>world = w, calls = calls h @ [CallInstall spec file reinstall err]\<rparr>))"

text \<open>A method called on a nil interface value is a nil dereference, which aborts.\<close>

definition call_CheckConfig ::
  "'w Env \<Rightarrow> 'w Host \<Rightarrow> Provider \<Rightarrow> URN \<Rightarrow> PropertyMap \<Rightarrow> PropertyMap \<Rightarrow> bool
     \<Rightarrow> fault + ((PropertyMap option \<times> CheckFailure list \<times> error option) \<times> 'w Host)" where
  "call_CheckConfig d h p urn olds news allowUnknowns =
     (if p = NilProvider then Inl (Panic ''nil pointer dereference'')
      else case provider_CheckConfig d (world h) p urn olds news allowUnknowns of
        ((inputs, failures, err), w) \<Rightarrow>
          Inr ((inputs, failures, err),
               \<lparr>world = w, calls = calls h @ [CallCheckConfig p urn err]\<rparr>))"

definition call_DiffConfig ::
  "'w Env \<Rightarrow> 'w Host \<Rightarrow> Provider \<Rightarrow> URN \<Rightarrow> PropertyMap \<Rightarrow> PropertyMap \<Rightarrow> bool \<Rightarrow> string list
     \<Rightarrow> fault + ((DiffResult \<times> error option) \<times> 'w Host)" where
  "call_DiffConfig d h p urn olds news allowUnknowns ignoreChanges =
     (if p = NilProvider then Inl (Panic ''nil pointer dereference'')
      else case provider_DiffConfig d (world h) p urn olds news allowUnknowns ignoreChanges of
        ((diff, err), w) \<Rightarrow>
          Inr ((diff, err), \<lparr>world = w, calls = calls h @ [CallDiffConfig p urn err]\<rparr>))"

definition call_Configure ::
  "'w Env \<Rightarrow> 'w Host \<Rightarrow> Provider \<Rightarrow> PropertyMap \<Rightarrow> fault + (error option \<times> 'w Host)" where
  "call_Configure d h p props =
     (if p = NilProvider then Inl (Panic ''nil pointer dereference'')
      else case provider_Configure d (world h) p props of
        (err, w) \<Rightarrow> Inr (err, \<lparr>world = w, calls = calls h @ [CallConfigure p err]\<rparr>))"

definition call_NewV4 :: "'w Env \<Rightarrow> 'w Host \<Rightarrow> (string \<times> error option) \<times> 'w Host" where
  "call_NewV4 d h =
     (case NewV4 d (world h) of
        ((u, err), w) \<Rightarrow> ((u, err), \<lparr>world = w, calls = calls h @ [CallNewV4 u err]\<rparr>))"

subsection \<open>Error messages\<close>

text \<open>The Error method. For InstallProviderError it is the method of registry.go.\<close>

fun Error :: "(Version \<Rightarrow> string) \<Rightarrow> error \<Rightarrow> string" where
  "Error vs (ErrorString s) = s"
| "Error vs (MissingError s) = s"
| "Error vs (WrapError s e) = s @ Error vs e"
| "Error vs (InstallProviderError name version url e) =
     (let server = (if url \<noteq> [] then '' --server '' @ url else [])
      in case version of
           Some v \<Rightarrow>
             ''Could not automatically download and install '' @ ResourcePlugin @ '' plugin ''
             @ [CHR 0x27] @ ''pulumi-'' @ ResourcePlugin @ ''-'' @ name @ [CHR 0x27]
             @ '' at version v'' @ vs v
             @ '', install the plugin using `pulumi plugin install '' @ ResourcePlugin @ '' ''
             @ name @ '' v'' @ vs v @ server @ ''`: '' @ Error vs e
         | None \<Rightarrow>
             ''Could not automatically download and install '' @ ResourcePlugin @ '' plugin ''
             @ [CHR 0x27] @ ''pulumi-'' @ ResourcePlugin @ ''-'' @ name @ [CHR 0x27]
             @ '', install the plugin using `pulumi plugin install '' @ ResourcePlugin @ '' ''
             @ name @ server @ ''`: '' @ Error vs e)"

subsection \<open>Reserved input properties\<close>

text \<open>GetProviderDownloadURL: the empty string when the key is absent.\<close>

definition GetProviderDownloadURL :: "PropertyMap \<Rightarrow> string \<times> error option" where
  "GetProviderDownloadURL inputs =
     (case inputs pluginDownloadKey of
        None \<Rightarrow> ([], None)
      | Some url \<Rightarrow>
          if \<not> IsString url
          then ([], Some (ErrorString
                  ([CHR 0x27] @ pluginDownloadKey @ [CHR 0x27] @ '' must be a string'')))
          else (StringValue url, None))"

text \<open>GetProviderVersion: nil when the key is absent.\<close>

definition GetProviderVersion :: "'w Env \<Rightarrow> PropertyMap \<Rightarrow> Version option \<times> error option" where
  "GetProviderVersion d inputs =
     (case inputs versionKey of
        None \<Rightarrow> (None, None)
      | Some version \<Rightarrow>
          if \<not> IsString version
          then (None, Some (ErrorString
                  ([CHR 0x27] @ versionKey @ [CHR 0x27] @ '' must be a string'')))
          else (case ParseTolerant d (StringValue version) of
                  Inl err \<Rightarrow>
                    (None, Some (ErrorString
                       (''could not parse provider version: '' @ Error (VersionString d) err)))
                | Inr sv \<Rightarrow> (Some sv, None)))"

subsection \<open>The plugin loader\<close>

text \<open>The tail of loadProvider, from the download on: download to a file, install
  without reinstalling, and ask the host again. A failure of the download or of the
  install is wrapped in an InstallProviderError that carries the version as requested.\<close>

definition downloadAndInstall ::
  "'w Env \<Rightarrow> Package \<Rightarrow> Version option \<Rightarrow> string \<Rightarrow> PluginSpec \<Rightarrow> 'w Host
     \<Rightarrow> (Provider \<times> error option) \<times> 'w Host" where
  "downloadAndInstall d pkg version downloadURL pluginSpec h =
     (case call_DownloadToFile d h pluginSpec of
        ((downloadedFile, Some err), h1) \<Rightarrow>
          ((NilProvider,
            Some (InstallProviderError pkg version downloadURL
                    (WrapError (''error downloading provider '' @ spec_Name pluginSpec
                                @ '' to file: '') err))), h1)
      | ((downloadedFile, None), h1) \<Rightarrow>
          (case call_Install d h1 pluginSpec downloadedFile False of
             (Some err, h2) \<Rightarrow>
               ((NilProvider,
                 Some (InstallProviderError pkg version downloadURL
                         (WrapError (''error installing provider '' @ spec_Name pluginSpec
                                     @ '': '') err))), h2)
           | (None, h2) \<Rightarrow> call_Provider d h2 pkg version))"

definition loadProvider ::
  "'w Env \<Rightarrow> Package \<Rightarrow> Version option \<Rightarrow> string \<Rightarrow> (string \<times> nat list) list \<Rightarrow> 'w Host
     \<Rightarrow> Provider \<Rightarrow> (Provider \<times> error option) \<times> 'w Host" where
  "loadProvider d pkg version downloadURL checksums h builtins =
     (if builtins \<noteq> NilProvider \<and> pkg = provider_Pkg d builtins then ((builtins, None), h)
      else case call_Provider d h pkg version of
        ((provider, None), h1) \<Rightarrow> ((provider, None), h1)
      | ((provider, Some err), h1) \<Rightarrow>
          if \<not> As_MissingError err then ((NilProvider, Some err), h1)
          else
            let pluginSpec = \<lparr>spec_Kind = ResourcePlugin, spec_Name = pkg,
                              spec_Version = version, spec_PluginDownloadURL = downloadURL,
                              spec_Checksums = checksums\<rparr>
            in if spec_Version pluginSpec = None
               then (case call_GetLatestVersion d h1 pluginSpec of
                       ((latest, Some err1), h2) \<Rightarrow>
                         ((NilProvider,
                           Some (WrapError (''could not find latest version for provider ''
                                            @ spec_Name pluginSpec @ '': '') err1)), h2)
                     | ((latest, None), h2) \<Rightarrow>
                         downloadAndInstall d pkg version downloadURL
                           (pluginSpec\<lparr>spec_Version := latest\<rparr>) h2)
               else downloadAndInstall d pkg version downloadURL pluginSpec h1)"

subsection \<open>Registry state\<close>

text \<open>The struct Registry. The readers-writer lock is not modelled: the operations below
  are the sequential behaviour of one call at a time.\<close>

record 'w Registry =
  host :: "'w Host"
  isPreview :: bool
  providers :: "Reference \<rightharpoonup> Provider"
  builtins :: Provider
  aliases :: "URN \<rightharpoonup> URN"

text \<open>Modelled from the spec: NewReference and mustNewReference of reference.go are not
  among the sources. The spec: newReference validates the URN and id shape and returns the
  pair; mustNewReference panics on violation. What the validation accepts is the field
  \<open>validateReference\<close> of the environment.\<close>

definition NewReference :: "'w Env \<Rightarrow> URN \<Rightarrow> ID \<Rightarrow> Reference \<times> error option" where
  "NewReference d urn i =
     (case validateReference d urn i of
        Some err \<Rightarrow> (\<lparr>refURN = [], refID = []\<rparr>, Some err)
      | None \<Rightarrow> (\<lparr>refURN = urn, refID = i\<rparr>, None))"

definition mustNewReference :: "'w Env \<Rightarrow> URN \<Rightarrow> ID \<Rightarrow> fault + Reference" where
  "mustNewReference d urn i =
     (case NewReference d urn i of
        (ref, Some err) \<Rightarrow> Inl (Panic ''mustNewReference: invalid provider reference'')
      | (ref, None) \<Rightarrow> Inr ref)"

text \<open>GetProvider returns the handle registered under the reference and whether there is
  one (the zero value, nil, when there is none).\<close>

definition GetProvider :: "'w Registry \<Rightarrow> Reference \<Rightarrow> Provider \<times> bool" where
  "GetProvider r ref =
     (case providers r ref of None \<Rightarrow> (NilProvider, False) | Some provider \<Rightarrow> (provider, True))"

definition setProvider :: "'w Env \<Rightarrow> 'w Registry \<Rightarrow> Reference \<Rightarrow> Provider \<Rightarrow> fault + 'w Registry" where
  "setProvider d r ref provider =
     (let r1 = r\<lparr>providers := (providers r)(ref \<mapsto> provider)\<rparr>
      in case aliases r1 (refURN ref) of
           None \<Rightarrow> Inr r1
         | Some alias \<Rightarrow>
             (case mustNewReference d alias (refID ref) of
                Inl f \<Rightarrow> Inl f
              | Inr aliasRef \<Rightarrow> Inr (r1\<lparr>providers := (providers r1)(aliasRef \<mapsto> provider)\<rparr>)))"

definition deleteProvider :: "'w Registry \<Rightarrow> Reference \<Rightarrow> (Provider \<times> bool) \<times> 'w Registry" where
  "deleteProvider r ref =
     (case providers r ref of
        None \<Rightarrow> ((NilProvider, False), r)
      | Some provider \<Rightarrow> ((provider, True), r\<lparr>providers := (providers r)(ref := None)\<rparr>))"

subsection \<open>The CRUD protocol\<close>

text \<open>Check. The parameter randomSeed is unused by the registry and left out.\<close>

definition Check ::
  "'w Env \<Rightarrow> 'w Registry \<Rightarrow> URN \<Rightarrow> PropertyMap \<Rightarrow> PropertyMap \<Rightarrow> bool
     \<Rightarrow> fault + ((PropertyMap option \<times> CheckFailure list \<times> error option) \<times> 'w Registry)" where
  "Check d r urn olds news allowUnknowns =
     (if \<not> IsProviderType d (urn_Type d urn)
      then Inl (Panic ''urn: must be a provider type'')
      else case GetProviderVersion d news of
        (version, Some err) \<Rightarrow>
          Inr ((None, [\<lparr>Property = ''version'', Reason = Error (VersionString d) err\<rparr>], None), r)
      | (version, None) \<Rightarrow>
          (case GetProviderDownloadURL news of
             (downloadURL, Some err) \<Rightarrow>
               Inr ((None, [\<lparr>Property = ''pluginDownloadURL'',
                              Reason = Error (VersionString d) err\<rparr>], None), r)
           | (downloadURL, None) \<Rightarrow>
               (case loadProvider d (GetProviderPackage d (urn_Type d urn)) version downloadURL []
                       (host r) (builtins r) of
                  ((provider, Some err), h1) \<Rightarrow> Inr ((None, [], Some err), r\<lparr>host := h1\<rparr>)
                | ((provider, None), h1) \<Rightarrow>
                    if provider = NilProvider
                    then Inr ((None, [], Some (ErrorString ''could not find plugin'')),
                              r\<lparr>host := h1\<rparr>)
                    else (case call_CheckConfig d h1 provider urn olds news allowUnknowns of
                            Inl f \<Rightarrow> Inl f
                          | Inr ((inputs, failures, err), h2) \<Rightarrow>
                              if length failures \<noteq> 0 \<or> err \<noteq> None
                              then (case call_CloseProvider d h2 provider of
                                      (closeErr, h3) \<Rightarrow>
                                        Inr ((None, failures, err), r\<lparr>host := h3\<rparr>))
                              else (case mustNewReference d urn UnknownID of
                                      Inl f \<Rightarrow> Inl f
                                    | Inr ref \<Rightarrow>
                                        (case setProvider d (r\<lparr>host := h2\<rparr>) ref provider of
                                           Inl f \<Rightarrow> Inl f
                                         | Inr r1 \<Rightarrow> Inr ((inputs, [], None), r1)))))))"

text \<open>RegisterAlias records the old URN of a renamed provider; an alias to itself is
  ignored.\<close>

definition RegisterAlias :: "'w Registry \<Rightarrow> URN \<Rightarrow> URN \<Rightarrow> 'w Registry" where
  "RegisterAlias r providerURN alias =
     (if providerURN \<noteq> alias then r\<lparr>aliases := (aliases r)(providerURN \<mapsto> alias)\<rparr> else r)"

text \<open>The zero DiffResult with Changes set to DiffUnknown, returned beside an error.\<close>

definition unknownDiff :: DiffResult where
  "unknownDiff = \<lparr>Changes = DiffUnknown, ReplaceKeys = [], StableKeys = [], ChangedKeys = [],
                   DetailedDiff = [], DeleteBeforeReplace = False\<rparr>"

text \<open>Diff. The first branch is the lookup miss under (urn, UnknownID): the handle
  registered under (urn, id) is used, its answer is returned as it is, and it is not
  closed. The second branch is the hit.\<close>

definition Diff ::
  "'w Env \<Rightarrow> 'w Registry \<Rightarrow> URN \<Rightarrow> ID \<Rightarrow> PropertyMap \<Rightarrow> PropertyMap \<Rightarrow> bool \<Rightarrow> string list
     \<Rightarrow> fault + ((DiffResult \<times> error option) \<times> 'w Registry)" where
  "Diff d r urn i olds news allowUnknowns ignoreChanges =
     (if i = [] then Inl (Panic ''id: must not be empty'')
      else case mustNewReference d urn UnknownID of
        Inl f \<Rightarrow> Inl f
      | Inr unknownRef \<Rightarrow>
          (case GetProvider r unknownRef of
             (provider, False) \<Rightarrow>
               (case mustNewReference d urn i of
                  Inl f \<Rightarrow> Inl f
                | Inr ref \<Rightarrow>
                    (case GetProvider r ref of
                       (provider, False) \<Rightarrow>
                         Inl (Panic ''Provider must have been registered by NewRegistry for DBR Diff'')
                     | (provider, True) \<Rightarrow>
                         (case call_DiffConfig d (host r) provider urn olds news allowUnknowns
                                 ignoreChanges of
                            Inl f \<Rightarrow> Inl f
                          | Inr ((diff, Some err), h1) \<Rightarrow>
                              Inr ((unknownDiff, Some err), r\<lparr>host := h1\<rparr>)
                          | Inr ((diff, None), h1) \<Rightarrow> Inr ((diff, None), r\<lparr>host := h1\<rparr>))))
           | (provider, True) \<Rightarrow>
               (case call_DiffConfig d (host r) provider urn olds news allowUnknowns
                       ignoreChanges of
                  Inl f \<Rightarrow> Inl f
                | Inr ((diff, Some err), h1) \<Rightarrow> Inr ((unknownDiff, Some err), r\<lparr>host := h1\<rparr>)
                | Inr ((diff, None), h1) \<Rightarrow>
                    (let diff1 = (if Changes diff = DiffUnknown
                                  then (if DeepEquals d olds news
                                        then diff\<lparr>Changes := DiffNone\<rparr>
                                        else diff\<lparr>Changes := DiffSome\<rparr>)
                                  else diff)
                     in if Replace d diff1
                        then (case call_CloseProvider d h1 provider of
                                (closeErr, h2) \<Rightarrow> Inr ((diff1, None), r\<lparr>host := h2\<rparr>))
                        else Inr ((diff1, None), r\<lparr>host := h1\<rparr>)))))"

text \<open>A Go map index expression: the zero value, nil, for a key that is absent.\<close>

definition index_providers :: "(Reference \<rightharpoonup> Provider) \<Rightarrow> Reference \<Rightarrow> Provider" where
  "index_providers m ref = (case m ref of None \<Rightarrow> NilProvider | Some provider \<Rightarrow> provider)"

definition Same :: "'w Env \<Rightarrow> 'w Registry \<Rightarrow> Reference \<Rightarrow> fault + 'w Registry" where
  "Same d r ref =
     (case aliases r (refURN ref) of
        None \<Rightarrow> Inr r
      | Some alias \<Rightarrow>
          (case mustNewReference d alias (refID ref) of
             Inl f \<Rightarrow> Inl f
           | Inr aliasRef \<Rightarrow>
               Inr (r\<lparr>providers := (providers r)(ref \<mapsto> index_providers (providers r) aliasRef)\<rparr>)))"

text \<open>The block of Create that assigns the id: empty in a preview, otherwise a fresh
  UUID, which must not be the unknown id.\<close>

definition Create_id :: "'w Env \<Rightarrow> 'w Host \<Rightarrow> bool \<Rightarrow> fault + ((ID \<times> error option) \<times> 'w Host)" where
  "Create_id d h preview =
     (if \<not> preview
      then (case call_NewV4 d h of
              ((u, Some err), h1) \<Rightarrow> Inr (([], Some err), h1)
            | ((u, None), h1) \<Rightarrow>
                if u = UnknownID then Inl (Panic ''resource ID must not be unknown'')
                else Inr ((u, None), h1))
      else Inr (([], None), h))"

text \<open>Create. The parameter timeout is unused by the registry and left out, here and in
  Update and Delete.\<close>

definition Create ::
  "'w Env \<Rightarrow> 'w Registry \<Rightarrow> URN \<Rightarrow> PropertyMap \<Rightarrow> bool
     \<Rightarrow> fault + ((ID \<times> PropertyMap option \<times> Status \<times> error option) \<times> 'w Registry)" where
  "Create d r urn news preview =
     (case mustNewReference d urn UnknownID of
        Inl f \<Rightarrow> Inl f
      | Inr unknownRef \<Rightarrow>
          (case GetProvider r unknownRef of
             (provider, False) \<Rightarrow> Inl (Panic ''Check must be called before Create'')
           | (provider, True) \<Rightarrow>
               (case call_Configure d (host r) provider news of
                  Inl f \<Rightarrow> Inl f
                | Inr (Some err, h1) \<Rightarrow> Inr (([], None, StatusOK, Some err), r\<lparr>host := h1\<rparr>)
                | Inr (None, h1) \<Rightarrow>
                    (case Create_id d h1 preview of
                       Inl f \<Rightarrow> Inl f
                     | Inr ((i, Some err), h2) \<Rightarrow>
                         Inr (([], None, StatusOK, Some err), r\<lparr>host := h2\<rparr>)
                     | Inr ((i, None), h2) \<Rightarrow>
                         (case mustNewReference d urn i of
                            Inl f \<Rightarrow> Inl f
                          | Inr ref \<Rightarrow>
                              (case setProvider d (r\<lparr>host := h2\<rparr>) ref provider of
                                 Inl f \<Rightarrow> Inl f
                               | Inr r1 \<Rightarrow> Inr ((i, Some news, StatusOK, None), r1)))))))"

definition Update ::
  "'w Env \<Rightarrow> 'w Registry \<Rightarrow> URN \<Rightarrow> ID \<Rightarrow> PropertyMap \<Rightarrow> PropertyMap \<Rightarrow> string list \<Rightarrow> bool
     \<Rightarrow> fault + ((PropertyMap option \<times> Status \<times> error option) \<times> 'w Registry)" where
  "Update d r urn i olds news ignoreChanges preview =
     (case mustNewReference d urn UnknownID of
        Inl f \<Rightarrow> Inl f
      | Inr unknownRef \<Rightarrow>
          (case GetProvider r unknownRef of
             (provider, False) \<Rightarrow> Inl (Panic ''Check and Diff must be called before Update'')
           | (provider, True) \<Rightarrow>
               (case call_Configure d (host r) provider news of
                  Inl f \<Rightarrow> Inl f
                | Inr (Some err, h1) \<Rightarrow> Inr ((None, StatusUnknown, Some err), r\<lparr>host := h1\<rparr>)
                | Inr (None, h1) \<Rightarrow>
                    (case mustNewReference d urn i of
                       Inl f \<Rightarrow> Inl f
                     | Inr ref \<Rightarrow>
                         (case setProvider d (r\<lparr>host := h1\<rparr>) ref provider of
                            Inl f \<Rightarrow> Inl f
                          | Inr r1 \<Rightarrow> Inr ((Some news, StatusOK, None), r1))))))"

definition Delete ::
  "'w Env \<Rightarrow> 'w Registry \<Rightarrow> URN \<Rightarrow> ID \<Rightarrow> PropertyMap
     \<Rightarrow> fault + ((Status \<times> error option) \<times> 'w Registry)" where
  "Delete d r urn i props =
     (if isPreview r then Inl (Panic ''Delete must not be called during preview'')
      else case mustNewReference d urn i of
        Inl f \<Rightarrow> Inl f
      | Inr ref \<Rightarrow>
          (case deleteProvider r ref of
             ((provider, False), r1) \<Rightarrow> Inl (Panic ''could not find provider to delete'')
           | ((provider, True), r1) \<Rightarrow>
               (case call_CloseProvider d (host r1) provider of
                  (closeErr, h1) \<Rightarrow> Inr ((StatusOK, None), r1\<lparr>host := h1\<rparr>))))"

subsection \<open>The other methods of plugin.Provider on the registry\<close>

text \<open>The zero values of the result structs (only the fields that matter to a reader of
  the registry are kept).\<close>

record ReadResult =
  read_ID :: ID
  read_Inputs :: "PropertyMap option"
  read_Outputs :: "PropertyMap option"

record ConstructResult =
  construct_URN :: URN
  construct_Outputs :: "PropertyMap option"

record CallResult =
  call_Return :: "PropertyMap option"
  call_Failures :: "CheckFailure list"

record PluginInfo =
  info_Name :: string
  info_Path :: string
  info_Kind :: PluginKind
  info_Version :: "Version option"

definition Close :: "'w Registry \<Rightarrow> fault + error option" where
  "Close r = Inr None"

definition Pkg :: "'w Registry \<Rightarrow> Package" where
  "Pkg r = ''pulumi''"

definition GetSchema :: "'w Registry \<Rightarrow> int \<Rightarrow> fault + (nat list \<times> error option)" where
  "GetSchema r version = Inl (Panic ''GetSchema must not be called on the provider registry'')"

definition GetMapping :: "'w Registry \<Rightarrow> string \<Rightarrow> fault + (nat list \<times> string \<times> error option)" where
  "GetMapping r key = Inl (Panic ''GetMapping must not be called on the provider registry'')"

definition CheckConfig ::
  "'w Registry \<Rightarrow> URN \<Rightarrow> PropertyMap \<Rightarrow> PropertyMap \<Rightarrow> bool
     \<Rightarrow> fault + (PropertyMap option \<times> CheckFailure list \<times> error option)" where
  "CheckConfig r urn olds news allowUnknowns =
     Inl (Panic ''CheckConfig must not be called on the provider registry'')"

definition DiffConfig ::
  "'w Registry \<Rightarrow> URN \<Rightarrow> PropertyMap \<Rightarrow> PropertyMap \<Rightarrow> bool \<Rightarrow> string list
     \<Rightarrow> fault + (DiffResult \<times> error option)" where
  "DiffConfig r urn olds news allowUnknowns ignoreChanges =
     Inl (Panic ''DiffConfig must not be called on the provider registry'')"

definition Configure :: "'w Registry \<Rightarrow> PropertyMap \<Rightarrow> fault + error option" where
  "Configure r props = Inl (Panic ''Configure must not be called on the provider registry'')"

definition Read ::
  "'w Registry \<Rightarrow> URN \<Rightarrow> ID \<Rightarrow> PropertyMap \<Rightarrow> PropertyMap
     \<Rightarrow> fault + (ReadResult \<times> Status \<times> error option)" where
  "Read r urn i inputs state =
     Inr (\<lparr>read_ID = [], read_Inputs = None, read_Outputs = None\<rparr>, StatusUnknown,
          Some (ErrorString ''provider resources may not be read''))"

text \<open>Construct; of its parameters the struct info and the options are left out.\<close>

definition Construct ::
  "'w Registry \<Rightarrow> TypeToken \<Rightarrow> string \<Rightarrow> URN \<Rightarrow> PropertyMap
     \<Rightarrow> fault + (ConstructResult \<times> error option)" where
  "Construct r typ name parent inputs =
     Inr (\<lparr>construct_URN = [], construct_Outputs = None\<rparr>,
          Some (ErrorString ''provider resources may not be constructed''))"

definition Invoke ::
  "'w Registry \<Rightarrow> string \<Rightarrow> PropertyMap
     \<Rightarrow> fault + (PropertyMap option \<times> CheckFailure list \<times> error option)" where
  "Invoke r tok args = Inl (Panic ''Invoke must not be called on the provider registry'')"

text \<open>StreamInvoke; the callback onNext is never called and is left out.\<close>

definition StreamInvoke ::
  "'w Registry \<Rightarrow> string \<Rightarrow> PropertyMap \<Rightarrow> fault + (CheckFailure list \<times> error option)" where
  "StreamInvoke r tok args =
     Inr ([], Some (ErrorString ''the provider registry does not implement streaming invokes''))"

text \<open>Call; the structs info and options are left out.\<close>

definition Call ::
  "'w Registry \<Rightarrow> string \<Rightarrow> PropertyMap \<Rightarrow> fault + (CallResult \<times> error option)" where
  "Call r tok args = Inl (Panic ''Call must not be called on the provider registry'')"

definition GetPluginInfo :: "'w Registry \<Rightarrow> fault + (PluginInfo \<times> error option)" where
  "GetPluginInfo r =
     Inr (\<lparr>info_Name = [], info_Path = [], info_Kind = [], info_Version = None\<rparr>,
          Some (ErrorString ''the provider registry does not report plugin info''))"

definition SignalCancellation :: "'w Registry \<Rightarrow> fault + error option" where
  "SignalCancellation r = Inr None"

subsection \<open>Construction\<close>

text \<open>The fields of resource.State that NewRegistry reads.\<close>

record State =
  state_URN :: URN
  state_ID :: ID
  state_Inputs :: PropertyMap

text \<open>Modelled from the spec: the String method of a reference (reference.go is not among
  the sources); the spec gives the canonical form, the URN, two colons and the id.\<close>

definition ReferenceString :: "Reference \<Rightarrow> string" where
  "ReferenceString ref = refURN ref @ ''::'' @ refID ref"

text \<open>How \<open>%v\<close> prints a *semver.Version.\<close>

definition printVersion :: "'w Env \<Rightarrow> Version option \<Rightarrow> string" where
  "printVersion d version = (case version of None \<Rightarrow> ''<nil>'' | Some v \<Rightarrow> VersionString d v)"

text \<open>The loop of NewRegistry over the old resources. A resource that is not a provider is
  skipped; the first failure ends the construction with an error; a provider whose
  Configure fails is closed first.\<close>

fun NewRegistry_loop ::
  "'w Env \<Rightarrow> 'w Registry \<Rightarrow> State list \<Rightarrow> fault + ('w Registry \<times> error option)" where
  "NewRegistry_loop d r [] = Inr (r, None)"
| "NewRegistry_loop d r (res # prev) =
     (if \<not> IsProviderType d (urn_Type d (state_URN res)) then NewRegistry_loop d r prev
      else if state_ID res = [] \<or> state_ID res = UnknownID
      then Inr (r, Some (ErrorString (''provider '' @ [CHR 0x27] @ state_URN res @ [CHR 0x27]
                                      @ '' has an unknown ID'')))
      else case mustNewReference d (state_URN res) (state_ID res) of
        Inl f \<Rightarrow> Inl f
      | Inr ref \<Rightarrow>
          if providers r ref \<noteq> None
          then Inr (r, Some (ErrorString (''duplicate provider found in old state: ''
                                          @ [CHR 0x27] @ ReferenceString ref @ [CHR 0x27])))
          else (case GetProviderVersion d (state_Inputs res) of
             (version, Some err) \<Rightarrow>
               Inr (r, Some (ErrorString
                      (''could not parse version for ''
                       @ GetProviderPackage d (urn_Type d (state_URN res)) @ '' provider ''
                       @ [CHR 0x27] @ state_URN res @ [CHR 0x27] @ '': ''
                       @ Error (VersionString d) err)))
           | (version, None) \<Rightarrow>
               (case GetProviderDownloadURL (state_Inputs res) of
                  (downloadURL, Some err) \<Rightarrow>
                    Inr (r, Some (ErrorString
                           (''could not parse download URL for ''
                            @ GetProviderPackage d (urn_Type d (state_URN res)) @ '' provider ''
                            @ [CHR 0x27] @ state_URN res @ [CHR 0x27] @ '': ''
                            @ Error (VersionString d) err)))
                | (downloadURL, None) \<Rightarrow>
                    (case loadProvider d (GetProviderPackage d (urn_Type d (state_URN res)))
                            version downloadURL [] (host r) (builtins r) of
                       ((provider, Some err), h1) \<Rightarrow>
                         Inr (r\<lparr>host := h1\<rparr>, Some (ErrorString
                                (''could not load plugin for ''
                                 @ GetProviderPackage d (urn_Type d (state_URN res))
                                 @ '' provider '' @ [CHR 0x27] @ state_URN res @ [CHR 0x27]
                                 @ '': '' @ Error (VersionString d) err)))
                     | ((provider, None), h1) \<Rightarrow>
                         if provider = NilProvider
                         then Inr (r\<lparr>host := h1\<rparr>, Some (ErrorString
                                (''could not find plugin for ''
                                 @ GetProviderPackage d (urn_Type d (state_URN res))
                                 @ '' provider '' @ [CHR 0x27] @ state_URN res @ [CHR 0x27]
                                 @ '' at version '' @ printVersion d version)))
                         else (case call_Configure d h1 provider (state_Inputs res) of
                                 Inl f \<Rightarrow> Inl f
                               | Inr (Some err, h2) \<Rightarrow>
                                   (case call_CloseProvider d h2 provider of
                                      (closeErr, h3) \<Rightarrow>
                                        Inr (r\<lparr>host := h3\<rparr>, Some (ErrorString
                                               (''could not configure provider ''
                                                @ [CHR 0x27] @ state_URN res @ [CHR 0x27]
                                                @ '': '' @ Error (VersionString d) err))))
                               | Inr (None, h2) \<Rightarrow>
                                   NewRegistry_loop d
                                     (r\<lparr>host := h2,
                                        providers := (providers r)(ref \<mapsto> provider)\<rparr>)
                                     prev)))))"

text \<open>NewRegistry returns the registry, or nil and an error; the calls made to the host
  stay made either way.\<close>

definition NewRegistry ::
  "'w Env \<Rightarrow> 'w Host \<Rightarrow> State list \<Rightarrow> bool \<Rightarrow> Provider
     \<Rightarrow> fault + (('w Registry option \<times> error option) \<times> 'w Host)" where
  "NewRegistry d h prev preview builtin =
     (case NewRegistry_loop d
             \<lparr>host = h, isPreview = preview, providers = Map.empty, builtins = builtin,
              aliases = Map.empty\<rparr> prev of
        Inl f \<Rightarrow> Inl f
      | Inr (r, Some err) \<Rightarrow> Inr ((None, Some err), host r)
      | Inr (r, None) \<Rightarrow> Inr ((Some r, None), host r))"

subsection \<open>Sequences of registry operations\<close>

text \<open>The calls of the engine into a registry, and what each returned.\<close>

datatype operation =
    OpCheck URN PropertyMap PropertyMap bool
  | OpDiff URN ID PropertyMap PropertyMap bool "string list"
  | OpSame Reference
  | OpCreate URN PropertyMap bool
  | OpUpdate URN ID PropertyMap PropertyMap "string list" bool
  | OpDelete URN ID PropertyMap
  | OpRegisterAlias URN URN

datatype result =
    ResCheck "PropertyMap option" "CheckFailure list" "error option"
  | ResDiff DiffResult "error option"
  | ResSame
  | ResCreate ID "PropertyMap option" Status "error option"
  | ResUpdate "PropertyMap option" Status "error option"
  | ResDelete Status "error option"
  | ResRegisterAlias

fun perform :: "'w Env \<Rightarrow> 'w Registry \<Rightarrow> operation \<Rightarrow> fault + (result \<times> 'w Registry)" where
  "perform d r (OpCheck urn olds news allowUnknowns) =
     (case Check d r urn olds news allowUnknowns of
        Inl f \<Rightarrow> Inl f
      | Inr ((inputs, failures, err), r1) \<Rightarrow> Inr (ResCheck inputs failures err, r1))"
| "perform d r (OpDiff urn i olds news allowUnknowns ignoreChanges) =
     (case Diff d r urn i olds news allowUnknowns ignoreChanges of
        Inl f \<Rightarrow> Inl f
      | Inr ((diff, err), r1) \<Rightarrow> Inr (ResDiff diff err, r1))"
| "perform d r (OpSame ref) =
     (case Same d r ref of Inl f \<Rightarrow> Inl f | Inr r1 \<Rightarrow> Inr (ResSame, r1))"
| "perform d r (OpCreate urn news preview) =
     (case Create d r urn news preview of
        Inl f \<Rightarrow> Inl f
      | Inr ((i, outputs, status, err), r1) \<Rightarrow> Inr (ResCreate i outputs status err, r1))"
| "perform d r (OpUpdate urn i olds news ignoreChanges preview) =
     (case Update d r urn i olds news ignoreChanges preview of
        Inl f \<Rightarrow> Inl f
      | Inr ((outputs, status, err), r1) \<Rightarrow> Inr (ResUpdate outputs status err, r1))"
| "perform d r (OpDelete urn i props) =
     (case Delete d r urn i props of
        Inl f \<Rightarrow> Inl f
      | Inr ((status, err), r1) \<Rightarrow> Inr (ResDelete status err, r1))"
| "perform d r (OpRegisterAlias providerURN alias) =
     Inr (ResRegisterAlias, RegisterAlias r providerURN alias)"

text \<open>A sequence of operations stops at the first contract violation.\<close>

fun run :: "'w Env \<Rightarrow> 'w Registry \<Rightarrow> operation list \<Rightarrow> fault + 'w Registry" where
  "run d r [] = Inr r"
| "run d r (x # xs) =
     (case perform d r x of Inl f \<Rightarrow> Inl f | Inr (res, r1) \<Rightarrow> run d r1 xs)"

text \<open>The handles the host handed out (a successful host.Provider with a handle that is
  not nil), and the handles host.CloseProvider was called on, in the order of the calls.\<close>

fun loaded_of :: "event \<Rightarrow> Provider list" where
  "loaded_of (CallProvider pkg version p None) = (if p = NilProvider then [] else [p])"
| "loaded_of e = []"

definition loaded :: "event list \<Rightarrow> Provider list" where
  "loaded es = concat (map loaded_of es)"

fun closed_of :: "event \<Rightarrow> Provider list" where
  "closed_of (CallCloseProvider p err) = [p]"
| "closed_of e = []"

definition closed :: "event list \<Rightarrow> Provider list" where
  "closed es = concat (map closed_of es)"

text \<open>The calls of the download-and-install path of the loader.\<close>

fun is_install_call :: "event \<Rightarrow> bool" where
  "is_install_call (CallGetLatestVersion spec v err) = True"
| "is_install_call (CallDownloadToFile spec file err) = True"
| "is_install_call (CallInstall spec file reinstall err) = True"
| "is_install_call e = False"

subsection \<open>The protocol of one provider resource\<close>

text \<open>
  The state machine of the spec, per URN, kept in two components so that providers taken
  over from the last deployment fit in as well. \<open>known\<close> is the set of ids under which
  the URN has a configured provider that was not deleted (empty for the state "none" of the
  spec, one id after Create or Update, empty again after Delete). \<open>unknown\<close> tells about
  the entry under (urn, UnknownID): \<open>NoCheck\<close> when no Check succeeded yet, \<open>Checked\<close>
  between a successful Check and the Diff with replacement, Create or Update that consumes
  it, \<open>Spent\<close> after that and until the next successful Check.
\<close>

datatype checked = NoCheck | Checked | Spent

record phase =
  known :: "ID set"
  unknown :: checked

text \<open>What the protocol allows in a phase. Check is always allowed. Diff needs a handle
  to ask: one that was checked or, for the delete-before-replace read on a URN never
  checked, the handle of a known id. Create and Update need a checked handle that was not
  consumed yet. Delete needs a known id. The unknown id is never used as a real id.\<close>

fun legal :: "(URN \<Rightarrow> phase) \<Rightarrow> operation \<Rightarrow> bool" where
  "legal ph (OpCheck urn olds news allowUnknowns) = True"
| "legal ph (OpDiff urn i olds news allowUnknowns ignoreChanges) =
     (unknown (ph urn) \<noteq> NoCheck \<or> i \<in> known (ph urn))"
| "legal ph (OpSame ref) = True"
| "legal ph (OpCreate urn news preview) = (unknown (ph urn) = Checked)"
| "legal ph (OpUpdate urn i olds news ignoreChanges preview) =
     (unknown (ph urn) = Checked \<and> i \<noteq> UnknownID)"
| "legal ph (OpDelete urn i props) = (i \<in> known (ph urn))"
| "legal ph (OpRegisterAlias providerURN alias) = True"

text \<open>The phase after an operation, from what the operation returned.\<close>

fun advance :: "'w Env \<Rightarrow> (URN \<Rightarrow> phase) \<Rightarrow> operation \<Rightarrow> result \<Rightarrow> (URN \<Rightarrow> phase)" where
  "advance d ph (OpCheck urn olds news allowUnknowns) (ResCheck inputs failures err) =
     (if failures = [] \<and> err = None then ph(urn := (ph urn)\<lparr>unknown := Checked\<rparr>) else ph)"
| "advance d ph (OpDiff urn i olds news allowUnknowns ignoreChanges) (ResDiff diff err) =
     (if unknown (ph urn) = Checked \<and> err = None \<and> Replace d diff
      then ph(urn := (ph urn)\<lparr>unknown := Spent\<rparr>) else ph)"
| "advance d ph (OpCreate urn news preview) (ResCreate i outputs status err) =
     (if err = None then ph(urn := \<lparr>known = insert i (known (ph urn)), unknown = Spent\<rparr>)
      else ph)"
| "advance d ph (OpUpdate urn i olds news ignoreChanges preview) (ResUpdate outputs status err) =
     (if err = None then ph(urn := \<lparr>known = insert i (known (ph urn)), unknown = Spent\<rparr>)
      else ph)"
| "advance d ph (OpDelete urn i props) (ResDelete status err) =
     ph(urn := (ph urn)\<lparr>known := known (ph urn) - {i}\<rparr>)"
| "advance d ph x res = ph"

text \<open>The one answer the protocol rules out: a Diff that asks for a replacement of a
  handle already consumed (by Create, by Update or by an earlier Diff with replacement), with
  no successful Check in between.\<close>

fun replaces_spent :: "'w Env \<Rightarrow> (URN \<Rightarrow> phase) \<Rightarrow> operation \<Rightarrow> result \<Rightarrow> bool" where
  "replaces_spent d ph (OpDiff urn i olds news allowUnknowns ignoreChanges) (ResDiff diff err) =
     (unknown (ph urn) = Spent \<and> err = None \<and> Replace d diff)"
| "replaces_spent d ph x res = False"

text \<open>A sequence follows the protocol when every operation is allowed in the phase it is
  issued in, none aborts, and no Diff asks for the replacement of a consumed handle.\<close>

fun follows :: "'w Env \<Rightarrow> (URN \<Rightarrow> phase) \<Rightarrow> 'w Registry \<Rightarrow> operation list \<Rightarrow> bool" where
  "follows d ph r [] = True"
| "follows d ph r (x # xs) =
     (legal ph x \<and>
      (case perform d r x of
         Inl f \<Rightarrow> False
       | Inr (res, r1) \<Rightarrow>
           \<not> replaces_spent d ph x res \<and> follows d (advance d ph x res) r1 xs))"

text \<open>The phases of a registry just constructed: the ids taken over from the last
  deployment are known, and nothing was checked.\<close>

definition phase0 :: "'w Registry \<Rightarrow> URN \<Rightarrow> phase" where
  "phase0 r urn =
     \<lparr>known = {i. providers r \<lparr>refURN = urn, refID = i\<rparr> \<noteq> None}, unknown = NoCheck\<rparr>"

fun is_RegisterAlias :: "operation \<Rightarrow> bool" where
  "is_RegisterAlias (OpRegisterAlias providerURN alias) = True"
| "is_RegisterAlias x = False"

subsection \<open>A counting mock host\<close>

text \<open>
  One concrete environment, on which the theorems below are instantiated. The state of
  the world is a counter. The host spawns the plugin handle numbered by the counter for
  the package aws, reports a missing plugin for gcp and fails otherwise; closing always
  succeeds. A plugin rejects a configuration without a region in CheckConfig, answers
  every DiffConfig with unknown changes and asks for a replacement when the region
  changed, and refuses an expired token in Configure.
\<close>

definition urnA :: URN where
  "urnA = ''urn:pulumi:dev::p::pulumi:providers:aws::a''"

definition urnB :: URN where
  "urnB = ''urn:pulumi:dev::p::pulumi:providers:aws::b''"

definition mockID :: "nat \<Rightarrow> ID" where
  "mockID n = (if n = 0 then ''0e37df36-f698-41bd-a2c5-35d1a3e4f6b8''
               else if n = 1 then ''7c9e6679-7425-40de-944b-e07fc1f90ae7''
               else ''a3bb189e-8bf9-4888-9912-ace4e6543002'')"

definition mock :: "nat Env" where
  "mock = \<lparr>
     urn_Type = (\<lambda>urn. if urn = urnA \<or> urn = urnB then ''pulumi:providers:aws'' else []),
     IsProviderType = (\<lambda>typ. take 17 typ = ''pulumi:providers:'' \<and> drop 17 typ \<noteq> []),
     GetProviderPackage = (\<lambda>typ. drop 17 typ),
     validateReference = (\<lambda>urn i. if urn = urnA \<or> urn = urnB then None
                                     else Some (ErrorString ''not a provider URN'')),
     ParseTolerant = (\<lambda>s. if s = ''2.0.0'' then Inr (MkVersion 2 0 0 [] [])
                            else Inl (ErrorString ''Invalid character(s) found in major number'')),
     VersionString = (\<lambda>v. ''2.0.0''),
     DeepEquals = (\<lambda>olds news. olds ''region'' = news ''region''),
     Replace = (\<lambda>diff. ReplaceKeys diff \<noteq> []),
     provider_Pkg = (\<lambda>p. ''aws''),
     host_Provider = (\<lambda>w pkg version.
        if pkg = ''aws'' then ((Plugin w, None), Suc w)
        else if pkg = ''gcp''
        then ((NilProvider, Some (MissingError ''no resource plugin gcp'')), w)
        else ((NilProvider, Some (ErrorString ''plugin exited'')), w)),
     host_CloseProvider = (\<lambda>w p. (None, w)),
     GetLatestVersion = (\<lambda>w spec. ((Some (MkVersion 2 0 0 [] []), None), w)),
     DownloadToFile = (\<lambda>w spec. ((''/tmp/plugin.tar.gz'', None), w)),
     Install = (\<lambda>w spec file reinstall. (None, w)),
     provider_CheckConfig = (\<lambda>w p urn olds news allowUnknowns.
        if news ''region'' = None
        then ((None, [\<lparr>Property = ''region'', Reason = ''missing''\<rparr>], None), w)
        else ((Some news, [], None), w)),
     provider_DiffConfig = (\<lambda>w p urn olds news allowUnknowns ignoreChanges.
        ((\<lparr>Changes = DiffUnknown,
           ReplaceKeys = (if olds ''region'' = news ''region'' then [] else [''region'']),
           StableKeys = [], ChangedKeys = [], DetailedDiff = [],
           DeleteBeforeReplace = False\<rparr>, None), w)),
     provider_Configure = (\<lambda>w p props.
        (if props ''token'' = Some (StringProperty ''expired'')
         then Some (ErrorString ''invalid credentials'') else None, w)),
     NewV4 = (\<lambda>w. ((mockID w, None), Suc w))
   \<rparr>"

definition east :: PropertyMap where
  "east = [''region'' \<mapsto> StringProperty ''us-east-1'', ''version'' \<mapsto> StringProperty ''2.0.0'']"

definition west :: PropertyMap where
  "west = [''region'' \<mapsto> StringProperty ''us-west-2'', ''version'' \<mapsto> StringProperty ''2.0.0'']"

definition no_region :: PropertyMap where
  "no_region = [''version'' \<mapsto> StringProperty ''2.0.0'']"

definition bad_version :: PropertyMap where
  "bad_version = [''version'' \<mapsto> StringProperty ''not-a-semver'']"

definition expired :: PropertyMap where
  "expired = [''region'' \<mapsto> StringProperty ''us-east-1'', ''token'' \<mapsto> StringProperty ''expired'']"

text \<open>A registry over no old resources, and the same after a successful Check of urnA.\<close>

definition registry0 :: "nat Registry" where
  "registry0 = \<lparr>host = \<lparr>world = 0, calls = []\<rparr>, isPreview = False, providers = Map.empty,
                 builtins = NilProvider, aliases = Map.empty\<rparr>"

definition registry1 :: "nat Registry" where
  "registry1 = \<lparr>host = \<lparr>world = 1, calls = []\<rparr>, isPreview = False,
                 providers = [\<lparr>refURN = urnA, refID = UnknownID\<rparr> \<mapsto> Plugin 0],
                 builtins = NilProvider, aliases = Map.empty\<rparr>"

text \<open>The registry that NewRegistry builds over one provider of the last deployment,
  urnA with the id \<open>mockID 0\<close>: the handle 0 was loaded and configured.\<close>

definition old_state :: State where
  "old_state = \<lparr>state_URN = urnA, state_ID = mockID 0, state_Inputs = east\<rparr>"

definition registry_old :: "nat Registry" where
  "registry_old = \<lparr>host = \<lparr>world = 1,
                             calls = [CallProvider ''aws'' (Some (MkVersion 2 0 0 [] []))
                                        (Plugin 0) None,
                                      CallConfigure (Plugin 0) None]\<rparr>,
                    isPreview = False,
                    providers = [\<lparr>refURN = urnA, refID = mockID 0\<rparr> \<mapsto> Plugin 0],
                    builtins = NilProvider, aliases = Map.empty\<rparr>"

text \<open>Three sequences on the mock host. The first replaces the provider of
  \<open>registry_old\<close> the way the engine does: Check, Diff with replacement, Check again,
  Create, Delete of the old id. The second issues Check, Create, Diff with replacement and
  Delete on one URN. The third renames: urnA is aliased to urnB, and each of the two URNs
  goes through Check, Diff, Update and Delete with the same id.\<close>

definition replacement :: "operation list" where
  "replacement =
     [OpCheck urnA east west False,
      OpDiff urnA (mockID 0) east west False [],
      OpCheck urnA Map.empty west False,
      OpCreate urnA west False,
      OpDelete urnA (mockID 0) east]"

definition diff_after_create :: "operation list" where
  "diff_after_create =
     [OpCheck urnA Map.empty east False,
      OpCreate urnA east False,
      OpDiff urnA (mockID 1) east west False [],
      OpDelete urnA (mockID 1) east]"

definition renamed :: "operation list" where
  "renamed =
     [OpRegisterAlias urnA urnB,
      OpCheck urnB east east False,
      OpDiff urnB (mockID 0) east east False [],
      OpUpdate urnB (mockID 0) east east [] False,
      OpCheck urnA east east False,
      OpDiff urnA (mockID 0) east east False [],
      OpUpdate urnA (mockID 0) east east [] False,
      OpDelete urnB (mockID 0) east,
      OpDelete urnA (mockID 0) east]"

text \<open>The handles loaded and the handles closed in a run, in the order of the calls.\<close>

definition handles ::
  "'w Env \<Rightarrow> 'w Registry \<Rightarrow> operation list \<Rightarrow> fault + (Provider list \<times> Provider list)" where
  "handles d r xs =
     (case run d r xs of
        Inl f \<Rightarrow> Inl f
      | Inr r1 \<Rightarrow> Inr (loaded (calls (host r1)), closed (calls (host r1))))"

subsection \<open>The invariant of the protocol\<close>

text \<open>A reference is live in a phase when the protocol may still use the handle under it:
  (urn, UnknownID) while a checked handle is pending, and (urn, id) for every known id.\<close>

definition live :: "(URN \<Rightarrow> phase) \<Rightarrow> Reference \<Rightarrow> bool" where
  "live ph ref \<longleftrightarrow>
     (refID ref = UnknownID \<and> unknown (ph (refURN ref)) = Checked)
     \<or> refID ref \<in> known (ph (refURN ref))"

text \<open>The registry agrees with the phases: there are no aliases and no built-in provider;
  the unknown id is no known id; a URN never checked has no entry under the unknown id;
  every handle in the map was handed out by the host; every live reference has a handle
  that was not closed; no two live references share a handle; only handles of the host were
  closed, each once.\<close>

definition consistent :: "(URN \<Rightarrow> phase) \<Rightarrow> 'w Registry \<Rightarrow> bool" where
  "consistent ph r \<longleftrightarrow>
     aliases r = Map.empty \<and> builtins r = NilProvider
     \<and> (\<forall>urn. UnknownID \<notin> known (ph urn))
     \<and> (\<forall>urn. unknown (ph urn) = NoCheck
               \<longrightarrow> providers r \<lparr>refURN = urn, refID = UnknownID\<rparr> = None)
     \<and> (\<forall>ref p. providers r ref = Some p \<longrightarrow> p \<in> set (loaded (calls (host r))))
     \<and> (\<forall>ref. live ph ref
               \<longrightarrow> (\<exists>p. providers r ref = Some p \<and> p \<notin> set (closed (calls (host r)))))
     \<and> (\<forall>ref1 ref2. live ph ref1 \<and> live ph ref2 \<and> providers r ref1 = providers r ref2
               \<longrightarrow> ref1 = ref2)
     \<and> set (closed (calls (host r))) \<subseteq> set (loaded (calls (host r)))
     \<and> distinct (closed (calls (host r)))"

section \<open>Theorems\<close>

lemmas mock_defs = mock_def urnA_def urnB_def mockID_def registry0_def registry1_def
  registry_old_def east_def west_def no_region_def bad_version_def expired_def
  UnknownID_def versionKey_def pluginDownloadKey_def

lemmas registry_defs = Check_def Diff_def Same_def Create_def Create_id_def Update_def
  Delete_def RegisterAlias_def GetProvider_def setProvider_def deleteProvider_def
  mustNewReference_def NewReference_def index_providers_def unknownDiff_def
  GetProviderVersion_def GetProviderDownloadURL_def loadProvider_def downloadAndInstall_def
  call_Provider_def call_CloseProvider_def call_GetLatestVersion_def call_DownloadToFile_def
  call_Install_def call_CheckConfig_def call_DiffConfig_def call_Configure_def call_NewV4_def

subsection \<open>Create\<close>

text \<open>
  C2 (dual registration). Whenever Create returns without an error and with an id that is
  not empty, the registry afterwards holds one and the same handle under (urn, UnknownID)
  and under (urn, id), and GetProvider finds it under both.
\<close>

theorem Create_dual_registration:
  assumes "Create d r urn news preview = Inr ((i, outputs, status, None), r')"
      and "i \<noteq> []"
  shows "\<exists>provider. GetProvider r' \<lparr>refURN = urn, refID = UnknownID\<rparr> = (provider, True)
           \<and> GetProvider r' \<lparr>refURN = urn, refID = i\<rparr> = (provider, True)"
  using assms
  by (auto simp: Create_def Create_id_def setProvider_def GetProvider_def mustNewReference_def
        NewReference_def call_Configure_def call_NewV4_def Let_def
      split: sum.splits option.splits prod.splits if_splits bool.splits)

text \<open>On the mock host: Create after a Check of urnA returns the first UUID, and the
  handle 0 is found under both references.\<close>

theorem Create_dual_registration_witness:
  "fst (projr (Create mock registry1 urnA east False)) = (mockID 1, Some east, StatusOK, None)
   \<and> (\<exists>provider.
        GetProvider (snd (projr (Create mock registry1 urnA east False)))
          \<lparr>refURN = urnA, refID = UnknownID\<rparr> = (provider, True)
        \<and> GetProvider (snd (projr (Create mock registry1 urnA east False)))
          \<lparr>refURN = urnA, refID = mockID 1\<rparr> = (provider, True))"
proof -
  have run: "Create mock registry1 urnA east False =
               Inr ((mockID 1, Some east, StatusOK, None),
                    snd (projr (Create mock registry1 urnA east False)))"
    by (simp add: registry_defs mock_defs)
  have "mockID 1 \<noteq> []"
    by (simp add: mockID_def)
  from Create_dual_registration [OF run this]
  have both: "\<exists>provider.
        GetProvider (snd (projr (Create mock registry1 urnA east False)))
          \<lparr>refURN = urnA, refID = UnknownID\<rparr> = (provider, True)
        \<and> GetProvider (snd (projr (Create mock registry1 urnA east False)))
          \<lparr>refURN = urnA, refID = mockID 1\<rparr> = (provider, True)" .
  have "fst (projr (Create mock registry1 urnA east False)) =
          (mockID 1, Some east, StatusOK, None)"
    by (simp add: registry_defs mock_defs)
  with both show ?thesis
    by (rule conjI [rotated])
qed

text \<open>
  C8 (a failed Configure leaves the state as it was). When the handle published under
  (urn, UnknownID) answers Configure with an error, Create returns that error with the
  empty id and nil outputs; the provider map and the aliases are unchanged, the handle is
  still found under (urn, UnknownID), and the only call made is that Configure: nothing is
  closed.
\<close>

theorem Create_Configure_failure:
  assumes "validateReference d urn UnknownID = None"
      and "providers r \<lparr>refURN = urn, refID = UnknownID\<rparr> = Some provider"
      and "provider \<noteq> NilProvider"
      and "provider_Configure d (world (host r)) provider news = (Some err, w)"
  shows "\<exists>r'. Create d r urn news preview = Inr (([], None, StatusOK, Some err), r')
           \<and> providers r' = providers r \<and> aliases r' = aliases r
           \<and> GetProvider r' \<lparr>refURN = urn, refID = UnknownID\<rparr> = (provider, True)
           \<and> calls (host r') = calls (host r) @ [CallConfigure provider (Some err)]"
  using assms
  by (simp add: Create_def mustNewReference_def NewReference_def GetProvider_def
        call_Configure_def)

theorem Create_Configure_failure_witness:
  "\<exists>r'. Create mock registry1 urnA expired False =
          Inr (([], None, StatusOK, Some (ErrorString ''invalid credentials'')), r')
        \<and> providers r' = providers registry1 \<and> aliases r' = aliases registry1
        \<and> GetProvider r' \<lparr>refURN = urnA, refID = UnknownID\<rparr> = (Plugin 0, True)
        \<and> calls (host r') =
            calls (host registry1)
            @ [CallConfigure (Plugin 0) (Some (ErrorString ''invalid credentials''))]"
proof -
  have a: "validateReference mock urnA UnknownID = None"
    by (simp add: mock_defs)
  have b: "providers registry1 \<lparr>refURN = urnA, refID = UnknownID\<rparr> = Some (Plugin 0)"
    by (simp add: mock_defs)
  have c: "provider_Configure mock (world (host registry1)) (Plugin 0) expired =
             (Some (ErrorString ''invalid credentials''), 1)"
    by (simp add: mock_defs)
  from Create_Configure_failure [OF a b _ c] show ?thesis
    by simp
qed

subsection \<open>Check\<close>

text \<open>
  C7 (Check on an unparsable version). For a provider URN: when the entry "version" of
  news is not a string, or is a string that semver.ParseTolerant rejects, Check returns nil
  inputs, exactly one failure, on the property "version", and no error. The registry is
  returned as it was, the log of calls included: neither the host nor the loader was
  called.
\<close>

theorem Check_unparsable_version:
  assumes "IsProviderType d (urn_Type d urn)"
      and "news versionKey = Some v"
      and "\<not> IsString v \<or> (\<exists>err. ParseTolerant d (StringValue v) = Inl err)"
  shows "\<exists>reason. Check d r urn olds news allowUnknowns =
           Inr ((None, [\<lparr>Property = ''version'', Reason = reason\<rparr>], None), r)"
  using assms by (auto simp: Check_def GetProviderVersion_def)

theorem Check_unparsable_version_witness:
  "(\<exists>reason. Check mock registry0 urnA Map.empty bad_version False =
      Inr ((None, [\<lparr>Property = ''version'', Reason = reason\<rparr>], None), registry0))
   \<and> (\<exists>reason. Check mock registry0 urnA Map.empty [versionKey \<mapsto> NumberProperty 2] False =
      Inr ((None, [\<lparr>Property = ''version'', Reason = reason\<rparr>], None), registry0))"
proof -
  have a: "IsProviderType mock (urn_Type mock urnA)"
    by (simp add: mock_defs)
  have b: "bad_version versionKey = Some (StringProperty ''not-a-semver'')"
    by (simp add: mock_defs)
  have c: "\<not> IsString (StringProperty ''not-a-semver'')
           \<or> (\<exists>err. ParseTolerant mock (StringValue (StringProperty ''not-a-semver'')) = Inl err)"
    by (simp add: mock_defs)
  have b': "[versionKey \<mapsto> NumberProperty 2] versionKey = Some (NumberProperty 2)"
    by simp
  have c': "\<not> IsString (NumberProperty 2)
            \<or> (\<exists>err. ParseTolerant mock (StringValue (NumberProperty 2)) = Inl err)"
    by simp
  from Check_unparsable_version [where d = mock and news = bad_version, OF a b c]
       Check_unparsable_version [where d = mock and news = "[versionKey \<mapsto> NumberProperty 2]",
                                 OF a b' c']
  show ?thesis
    by blast
qed

text \<open>
  C3 (Check publishes or closes, never both). Let Check reach CheckConfig: the URN is a
  provider URN, version and download URL parse, and the loader returns a handle that is not
  nil. If CheckConfig returns a failure or an error, Check returns nil inputs with those
  failures and that error whatever CloseProvider answers, the provider map is the one
  before the call, and the calls after the loader's are CheckConfig and CloseProvider on
  the handle. Otherwise, provided the references (urn, UnknownID) and, for an aliased URN,
  (alias, UnknownID) are valid, Check returns the inputs of CheckConfig, the handle is found
  under (urn, UnknownID), and the only call after the loader's is CheckConfig: the handle
  is not closed.
\<close>

theorem Check_publish_xor_close:
  assumes "IsProviderType d (urn_Type d urn)"
      and "GetProviderVersion d news = (version, None)"
      and "GetProviderDownloadURL news = (downloadURL, None)"
      and "loadProvider d (GetProviderPackage d (urn_Type d urn)) version downloadURL []
             (host r) (builtins r) = ((provider, None), h1)"
      and "provider \<noteq> NilProvider"
      and "provider_CheckConfig d (world h1) provider urn olds news allowUnknowns =
             ((inputs, failures, err), w2)"
      and "host_CloseProvider d w2 provider = (closeErr, w3)"
  shows "if failures \<noteq> [] \<or> err \<noteq> None
         then Check d r urn olds news allowUnknowns =
                Inr ((None, failures, err),
                     r\<lparr>host := \<lparr>world = w3,
                                  calls = calls h1 @ [CallCheckConfig provider urn err,
                                                      CallCloseProvider provider closeErr]\<rparr>\<rparr>)
         else (validateReference d urn UnknownID = None \<and>
               (case aliases r urn of None \<Rightarrow> True
                | Some alias \<Rightarrow> validateReference d alias UnknownID = None)
               \<longrightarrow> (\<exists>r'. Check d r urn olds news allowUnknowns = Inr ((inputs, [], None), r')
                       \<and> GetProvider r' \<lparr>refURN = urn, refID = UnknownID\<rparr> = (provider, True)
                       \<and> host r' = \<lparr>world = w2,
                                     calls = calls h1 @ [CallCheckConfig provider urn None]\<rparr>))"
  using assms
  by (auto simp: Check_def call_CheckConfig_def call_CloseProvider_def setProvider_def
        mustNewReference_def NewReference_def GetProvider_def Let_def
      split: option.splits)

text \<open>On the mock host: a configuration without a region is refused and the handle
  closed, the registry's map staying empty; a configuration with a region is published.\<close>

theorem Check_publish_xor_close_witness:
  "Check mock registry0 urnA Map.empty no_region False =
     Inr ((None, [\<lparr>Property = ''region'', Reason = ''missing''\<rparr>], None),
          registry0\<lparr>host := \<lparr>world = 1,
                              calls = [CallProvider ''aws'' (Some (MkVersion 2 0 0 [] []))
                                         (Plugin 0) None,
                                       CallCheckConfig (Plugin 0) urnA None,
                                       CallCloseProvider (Plugin 0) None]\<rparr>\<rparr>)
   \<and> (\<exists>r'. Check mock registry0 urnA Map.empty east False = Inr ((Some east, [], None), r')
          \<and> GetProvider r' \<lparr>refURN = urnA, refID = UnknownID\<rparr> = (Plugin 0, True)
          \<and> host r' = \<lparr>world = 1,
                        calls = [CallProvider ''aws'' (Some (MkVersion 2 0 0 [] []))
                                   (Plugin 0) None,
                                 CallCheckConfig (Plugin 0) urnA None]\<rparr>)"
proof -
  have a: "IsProviderType mock (urn_Type mock urnA)"
    by (simp add: mock_defs)
  have b: "GetProviderVersion mock no_region = (Some (MkVersion 2 0 0 [] []), None)"
          "GetProviderVersion mock east = (Some (MkVersion 2 0 0 [] []), None)"
    by (simp_all add: GetProviderVersion_def mock_defs)
  have c: "GetProviderDownloadURL no_region = ([], None)"
          "GetProviderDownloadURL east = ([], None)"
    by (simp_all add: GetProviderDownloadURL_def mock_defs)
  have l: "loadProvider mock (GetProviderPackage mock (urn_Type mock urnA))
             (Some (MkVersion 2 0 0 [] [])) [] [] (host registry0) (builtins registry0) =
           ((Plugin 0, None),
            \<lparr>world = 1, calls = [CallProvider ''aws'' (Some (MkVersion 2 0 0 [] []))
                                    (Plugin 0) None]\<rparr>)"
    by (simp add: loadProvider_def call_Provider_def mock_defs)
  have k: "provider_CheckConfig mock 1 (Plugin 0) urnA Map.empty no_region False =
             ((None, [\<lparr>Property = ''region'', Reason = ''missing''\<rparr>], None), 1)"
          "provider_CheckConfig mock 1 (Plugin 0) urnA Map.empty east False =
             ((Some east, [], None), 1)"
    by (simp_all add: mock_defs)
  have e: "host_CloseProvider mock 1 (Plugin 0) = (None, 1)"
    by (simp add: mock_defs)
  have v: "validateReference mock urnA UnknownID = None" "aliases registry0 urnA = None"
    by (simp_all add: mock_defs)
  from Check_publish_xor_close [OF a b(1) c(1) l _ _ e, of Map.empty False None
         "[\<lparr>Property = ''region'', Reason = ''missing''\<rparr>]" None] k(1)
  have first: "Check mock registry0 urnA Map.empty no_region False =
     Inr ((None, [\<lparr>Property = ''region'', Reason = ''missing''\<rparr>], None),
          registry0\<lparr>host := \<lparr>world = 1,
                              calls = [CallProvider ''aws'' (Some (MkVersion 2 0 0 [] []))
                                         (Plugin 0) None,
                                       CallCheckConfig (Plugin 0) urnA None,
                                       CallCloseProvider (Plugin 0) None]\<rparr>\<rparr>)"
    by simp
  from Check_publish_xor_close [OF a b(2) c(2) l _ _ e, of Map.empty False "Some east" "[]" None]
    k(2) v
  have second: "\<exists>r'. Check mock registry0 urnA Map.empty east False = Inr ((Some east, [], None), r')
          \<and> GetProvider r' \<lparr>refURN = urnA, refID = UnknownID\<rparr> = (Plugin 0, True)
          \<and> host r' = \<lparr>world = 1,
                        calls = [CallProvider ''aws'' (Some (MkVersion 2 0 0 [] []))
                                   (Plugin 0) None,
                                 CallCheckConfig (Plugin 0) urnA None]\<rparr>"
    by simp
  from first second show ?thesis
    by blast
qed

subsection \<open>The loader\<close>

text \<open>
  C9 (how the loader classifies errors). First part: when the package is not the built-in
  one and host.Provider fails with an error in which errors.As finds no MissingError,
  loadProvider returns nil and that very error, and host.Provider was its only call: no
  version was resolved, nothing downloaded, nothing installed. Second part: whenever
  loadProvider did resolve a version, download or install, the first host.Provider had
  failed with an error in which errors.As finds a MissingError.
\<close>

theorem loadProvider_error_classification:
  "(\<not> (builtin \<noteq> NilProvider \<and> pkg = provider_Pkg d builtin)
      \<and> host_Provider d (world h) pkg version = ((p, Some err), w) \<and> \<not> As_MissingError err
      \<longrightarrow> loadProvider d pkg version downloadURL checksums h builtin =
            ((NilProvider, Some err),
             \<lparr>world = w, calls = calls h @ [CallProvider pkg version p (Some err)]\<rparr>))
   \<and> (list_ex is_install_call
        (calls (snd (loadProvider d pkg version downloadURL checksums h builtin)))
      \<and> \<not> list_ex is_install_call (calls h)
      \<longrightarrow> (\<exists>p err w. host_Provider d (world h) pkg version = ((p, Some err), w)
                      \<and> As_MissingError err))"
  by (auto simp: loadProvider_def call_Provider_def split: prod.splits option.splits if_splits)

text \<open>On the mock host: the package azure fails with a plain error, which comes back
  after the single call; the package gcp is missing, and the loader goes on to resolve
  the version, download and install.\<close>

theorem loadProvider_error_classification_witness:
  "loadProvider mock ''azure'' None [] [] \<lparr>world = 0, calls = []\<rparr> NilProvider =
     ((NilProvider, Some (ErrorString ''plugin exited'')),
      \<lparr>world = 0,
        calls = [CallProvider ''azure'' None NilProvider (Some (ErrorString ''plugin exited''))]\<rparr>)
   \<and> list_ex is_install_call
        (calls (snd (loadProvider mock ''gcp'' None [] [] \<lparr>world = 0, calls = []\<rparr> NilProvider)))
   \<and> (\<exists>p err w. host_Provider mock 0 ''gcp'' None = ((p, Some err), w) \<and> As_MissingError err)"
proof -
  have a: "host_Provider mock (world \<lparr>world = 0, calls = []\<rparr>) ''azure'' None =
             ((NilProvider, Some (ErrorString ''plugin exited'')), 0)"
    by (simp add: mock_defs)
  have b: "list_ex is_install_call
             (calls (snd (loadProvider mock ''gcp'' None [] [] \<lparr>world = (0::nat), calls = []\<rparr>
                            NilProvider)))"
    by (simp add: registry_defs mock_defs)
  from loadProvider_error_classification
         [where builtin = NilProvider and pkg = "''azure''" and d = mock
            and h = "\<lparr>world = 0, calls = []\<rparr>" and version = None and p = NilProvider
            and err = "ErrorString ''plugin exited''" and w = 0 and downloadURL = "[]"
            and checksums = "[]"] a
  have first: "loadProvider mock ''azure'' None [] [] \<lparr>world = 0, calls = []\<rparr> NilProvider =
     ((NilProvider, Some (ErrorString ''plugin exited'')),
      \<lparr>world = 0,
        calls = [CallProvider ''azure'' None NilProvider (Some (ErrorString ''plugin exited''))]\<rparr>)"
    by simp
  from loadProvider_error_classification
         [where builtin = NilProvider and pkg = "''gcp''" and d = mock
            and h = "\<lparr>world = 0, calls = []\<rparr>" and version = None and downloadURL = "[]"
            and checksums = "[]"] b
  have second: "\<exists>p err w. host_Provider mock 0 ''gcp'' None = ((p, Some err), w)
                  \<and> As_MissingError err"
    by simp
  from first b second show ?thesis
    by blast
qed

subsection \<open>Aliases\<close>

text \<open>While a new URN has a registered alias, every setProvider for it stores the handle
  under the old URN as well; Create is one of the operations that publish through
  setProvider.\<close>

lemma RegisterAlias_aliases:
  "newURN \<noteq> oldURN \<Longrightarrow> aliases (RegisterAlias r newURN oldURN) newURN = Some oldURN"
  by (simp add: RegisterAlias_def)

lemma setProvider_registered_alias:
  assumes "aliases r newURN = Some oldURN"
      and "validateReference d oldURN i = None"
  shows "\<exists>r'. setProvider d r \<lparr>refURN = newURN, refID = i\<rparr> provider = Inr r'
           \<and> GetProvider r' \<lparr>refURN = newURN, refID = i\<rparr> = (provider, True)
           \<and> GetProvider r' \<lparr>refURN = oldURN, refID = i\<rparr> = (provider, True)"
  using assms
  by (simp add: setProvider_def mustNewReference_def NewReference_def GetProvider_def Let_def)

lemma Create_alias_continuity:
  assumes "aliases r urn = Some oldURN"
      and "Create d r urn news preview = Inr ((i, outputs, status, None), r')"
  shows "\<exists>provider. GetProvider r' \<lparr>refURN = urn, refID = i\<rparr> = (provider, True)
           \<and> GetProvider r' \<lparr>refURN = oldURN, refID = i\<rparr> = (provider, True)"
  using assms
  by (auto simp: Create_def Create_id_def setProvider_def GetProvider_def mustNewReference_def
        NewReference_def call_Configure_def call_NewV4_def Let_def
      split: sum.splits option.splits prod.splits if_splits bool.splits)

text \<open>
  C6 (alias shadow). After RegisterAlias of a new URN to a different old URN, a
  setProvider for the new URN and an id stores the handle under the old URN and that id as
  well: GetProvider for (old URN, id) finds the handle. The reference (old URN, id) is
  taken to be a valid reference, as a reference handed to GetProvider is.
\<close>

theorem alias_shadow:
  assumes "newURN \<noteq> oldURN"
      and "validateReference d oldURN i = None"
  shows "\<exists>r'. setProvider d (RegisterAlias r newURN oldURN) \<lparr>refURN = newURN, refID = i\<rparr>
                provider = Inr r'
           \<and> GetProvider r' \<lparr>refURN = oldURN, refID = i\<rparr> = (provider, True)"
  using setProvider_registered_alias [OF RegisterAlias_aliases [OF assms(1)] assms(2)]
  by blast

theorem alias_shadow_witness:
  "\<exists>r'. setProvider mock (RegisterAlias registry0 urnA urnB)
           \<lparr>refURN = urnA, refID = mockID 1\<rparr> (Plugin 0) = Inr r'
        \<and> GetProvider r' \<lparr>refURN = urnB, refID = mockID 1\<rparr> = (Plugin 0, True)"
proof -
  have a: "urnA \<noteq> urnB"
    by (simp add: mock_defs)
  have b: "validateReference mock urnB (mockID 1) = None"
    by (simp add: mock_defs)
  from alias_shadow [OF a b] show ?thesis .
qed

text \<open>
  C10 (Same with a dangling alias). First part: after RegisterAlias of a new URN to a
  different old URN, with no provider registered under (old URN, id), Same for
  (new URN, id) stores the nil handle under (new URN, id): GetProvider reports the
  reference as present and returns nil. Second part: when the URN of the reference has no
  alias, Same returns the registry as it was.
\<close>

theorem Same_dangling_alias:
  "(newURN \<noteq> oldURN \<and> providers r \<lparr>refURN = oldURN, refID = i\<rparr> = None
      \<and> validateReference d oldURN i = None
      \<longrightarrow> (\<exists>r'. Same d (RegisterAlias r newURN oldURN) \<lparr>refURN = newURN, refID = i\<rparr> = Inr r'
              \<and> providers r' \<lparr>refURN = newURN, refID = i\<rparr> = Some NilProvider
              \<and> GetProvider r' \<lparr>refURN = newURN, refID = i\<rparr> = (NilProvider, True)))
   \<and> (aliases r (refURN ref) = None \<longrightarrow> Same d r ref = Inr r)"
  by (simp add: Same_def RegisterAlias_def mustNewReference_def NewReference_def
        GetProvider_def index_providers_def)

theorem Same_dangling_alias_witness:
  "(\<exists>r'. Same mock (RegisterAlias registry0 urnA urnB) \<lparr>refURN = urnA, refID = mockID 1\<rparr> = Inr r'
        \<and> providers r' \<lparr>refURN = urnA, refID = mockID 1\<rparr> = Some NilProvider
        \<and> GetProvider r' \<lparr>refURN = urnA, refID = mockID 1\<rparr> = (NilProvider, True))
   \<and> Same mock registry0 \<lparr>refURN = urnA, refID = mockID 1\<rparr> = Inr registry0"
proof -
  have a: "urnA \<noteq> urnB"
    by (simp add: mock_defs)
  have b: "providers registry0 \<lparr>refURN = urnB, refID = mockID 1\<rparr> = None"
    by (simp add: mock_defs)
  have c: "validateReference mock urnB (mockID 1) = None"
    by (simp add: mock_defs)
  have e: "aliases registry0 (refURN \<lparr>refURN = urnA, refID = mockID 1\<rparr>) = None"
    by (simp add: mock_defs)
  from Same_dangling_alias
         [where newURN = urnA and oldURN = urnB and r = registry0 and i = "mockID 1"
            and d = mock and ref = "\<lparr>refURN = urnA, refID = mockID 1\<rparr>"]
       a b c e
  show ?thesis
    by blast
qed

subsection \<open>Diff\<close>

text \<open>
  C4, as the code has it (DiffUnknown is normalised on the hit path only). First part:
  when a handle is registered under (urn, UnknownID) and its DiffConfig returns unknown
  changes and no error, Diff returns that diff with Changes set to DiffNone if olds deeply
  equal news and to DiffSome otherwise. Second part: when nothing is registered under
  (urn, UnknownID) and the handle registered under (urn, id) is used, Diff returns the diff
  of DiffConfig as it is, unknown changes included, and closes nothing.
\<close>

theorem Diff_unknown_normalization:
  "(i \<noteq> [] \<and> validateReference d urn UnknownID = None
      \<and> providers r \<lparr>refURN = urn, refID = UnknownID\<rparr> = Some provider
      \<and> provider \<noteq> NilProvider
      \<and> provider_DiffConfig d (world (host r)) provider urn olds news allowUnknowns ignoreChanges
          = ((diff, None), w)
      \<and> Changes diff = DiffUnknown
      \<longrightarrow> (\<exists>r'. Diff d r urn i olds news allowUnknowns ignoreChanges =
                  Inr ((diff\<lparr>Changes := (if DeepEquals d olds news then DiffNone else DiffSome)\<rparr>,
                        None), r')))
   \<and> (i \<noteq> [] \<and> validateReference d urn UnknownID = None \<and> validateReference d urn i = None
      \<and> providers r \<lparr>refURN = urn, refID = UnknownID\<rparr> = None
      \<and> providers r \<lparr>refURN = urn, refID = i\<rparr> = Some provider
      \<and> provider \<noteq> NilProvider
      \<and> provider_DiffConfig d (world (host r)) provider urn olds news allowUnknowns ignoreChanges
          = ((diff, None), w)
      \<longrightarrow> (\<exists>r'. Diff d r urn i olds news allowUnknowns ignoreChanges = Inr ((diff, None), r')
              \<and> providers r' = providers r
              \<and> closed (calls (host r')) = closed (calls (host r))))"
  by (auto simp: Diff_def mustNewReference_def NewReference_def GetProvider_def
        call_DiffConfig_def call_CloseProvider_def Let_def closed_def split: prod.splits)

text \<open>The claim C4 as stated fails on the miss path. On the mock host, for the provider
  taken over under (urnA, id): DiffConfig answers with unknown changes and no error, olds
  and news are deeply equal, and Diff returns unknown changes, not DiffNone.\<close>

theorem Diff_unknown_normalization_counterexample:
  "provider_DiffConfig mock (world (host registry_old)) (Plugin 0) urnA east east False [] =
     ((unknownDiff, None), 1)
   \<and> Changes unknownDiff = DiffUnknown
   \<and> DeepEquals mock east east
   \<and> Diff mock registry_old urnA (mockID 0) east east False [] =
       Inr ((unknownDiff, None),
            registry_old\<lparr>host := \<lparr>world = 1,
                                   calls = calls (host registry_old)
                                           @ [CallDiffConfig (Plugin 0) urnA None]\<rparr>\<rparr>)"
  by (simp add: registry_defs mock_defs)

theorem Diff_unknown_normalization_witness:
  "(\<exists>r'. Diff mock registry1 urnA (mockID 0) east east False [] =
           Inr ((unknownDiff\<lparr>Changes := DiffNone\<rparr>, None), r'))
   \<and> (\<exists>r'. Diff mock registry1 urnA (mockID 0) east west False [] =
           Inr ((unknownDiff\<lparr>Changes := DiffSome, ReplaceKeys := [''region'']\<rparr>, None), r'))
   \<and> (\<exists>r'. Diff mock registry_old urnA (mockID 0) east east False [] =
           Inr ((unknownDiff, None), r')
         \<and> providers r' = providers registry_old
         \<and> closed (calls (host r')) = closed (calls (host registry_old)))"
proof -
  have v: "mockID 0 \<noteq> []" "validateReference mock urnA UnknownID = None"
          "validateReference mock urnA (mockID 0) = None"
    by (simp_all add: mock_defs)
  have p1: "providers registry1 \<lparr>refURN = urnA, refID = UnknownID\<rparr> = Some (Plugin 0)"
    by (simp add: mock_defs)
  have p2: "providers registry_old \<lparr>refURN = urnA, refID = UnknownID\<rparr> = None"
           "providers registry_old \<lparr>refURN = urnA, refID = mockID 0\<rparr> = Some (Plugin 0)"
    by (simp_all add: mock_defs)
  have d1: "provider_DiffConfig mock (world (host registry1)) (Plugin 0) urnA east east False []
              = ((unknownDiff, None), 1)"
    by (simp add: mock_defs unknownDiff_def)
  have d2: "provider_DiffConfig mock (world (host registry1)) (Plugin 0) urnA east west False []
              = ((unknownDiff\<lparr>ReplaceKeys := [''region'']\<rparr>, None), 1)"
    by (simp add: mock_defs unknownDiff_def)
  have d3: "provider_DiffConfig mock (world (host registry_old)) (Plugin 0) urnA east east False []
              = ((unknownDiff, None), 1)"
    by (simp add: mock_defs unknownDiff_def)
  have q: "DeepEquals mock east east" "\<not> DeepEquals mock east west"
          "Changes unknownDiff = DiffUnknown"
    by (simp_all add: mock_defs unknownDiff_def)
  from Diff_unknown_normalization
         [where i = "mockID 0" and d = mock and urn = urnA and r = registry1
            and provider = "Plugin 0" and olds = east and news = east
            and allowUnknowns = False and ignoreChanges = "[]" and diff = unknownDiff
            and w = 1]
       v p1 d1 q
  have first: "\<exists>r'. Diff mock registry1 urnA (mockID 0) east east False [] =
                 Inr ((unknownDiff\<lparr>Changes := DiffNone\<rparr>, None), r')"
    by simp
  from Diff_unknown_normalization
         [where i = "mockID 0" and d = mock and urn = urnA and r = registry1
            and provider = "Plugin 0" and olds = east and news = west
            and allowUnknowns = False and ignoreChanges = "[]"
            and diff = "unknownDiff\<lparr>ReplaceKeys := [''region'']\<rparr>" and w = 1]
       v p1 d2 q
  have second: "\<exists>r'. Diff mock registry1 urnA (mockID 0) east west False [] =
                 Inr ((unknownDiff\<lparr>Changes := DiffSome, ReplaceKeys := [''region'']\<rparr>, None), r')"
    by (simp add: unknownDiff_def)
  from Diff_unknown_normalization
         [where i = "mockID 0" and d = mock and urn = urnA and r = registry_old
            and provider = "Plugin 0" and olds = east and news = east
            and allowUnknowns = False and ignoreChanges = "[]" and diff = unknownDiff
            and w = 1]
       v p2 d3
  have third: "\<exists>r'. Diff mock registry_old urnA (mockID 0) east east False [] =
                 Inr ((unknownDiff, None), r')
               \<and> providers r' = providers registry_old
               \<and> closed (calls (host r')) = closed (calls (host registry_old))"
    by simp
  from first second third show ?thesis
    by blast
qed

subsection \<open>Methods the registry refuses\<close>

text \<open>
  C5, as the code has it. Called on the registry, GetSchema, GetMapping, CheckConfig,
  DiffConfig, Configure, Invoke and Call abort with a contract violation; Construct and
  GetPluginInfo do not: each returns its zero result and an ordinary error.
\<close>

theorem refused_methods:
  "GetSchema r version = Inl (Panic ''GetSchema must not be called on the provider registry'')
   \<and> GetMapping r key = Inl (Panic ''GetMapping must not be called on the provider registry'')
   \<and> CheckConfig r urn olds news allowUnknowns
       = Inl (Panic ''CheckConfig must not be called on the provider registry'')
   \<and> DiffConfig r urn olds news allowUnknowns ignoreChanges
       = Inl (Panic ''DiffConfig must not be called on the provider registry'')
   \<and> Configure r props = Inl (Panic ''Configure must not be called on the provider registry'')
   \<and> Invoke r tok args = Inl (Panic ''Invoke must not be called on the provider registry'')
   \<and> Call r tok args = Inl (Panic ''Call must not be called on the provider registry'')
   \<and> Construct r typ name parent inputs
       = Inr (\<lparr>construct_URN = [], construct_Outputs = None\<rparr>,
              Some (ErrorString ''provider resources may not be constructed''))
   \<and> GetPluginInfo r
       = Inr (\<lparr>info_Name = [], info_Path = [], info_Kind = [], info_Version = None\<rparr>,
              Some (ErrorString ''the provider registry does not report plugin info''))"
  by (simp add: GetSchema_def GetMapping_def CheckConfig_def DiffConfig_def Configure_def
        Invoke_def Call_def Construct_def GetPluginInfo_def)

text \<open>The claim C5 as stated fails for Construct and for GetPluginInfo: on the registry
  over no old resources both return, with an ordinary error, and neither aborts.\<close>

theorem refused_methods_counterexample:
  "Construct registry0 ''aws:s3/bucket:Bucket'' ''b'' urnA Map.empty
     = Inr (\<lparr>construct_URN = [], construct_Outputs = None\<rparr>,
            Some (ErrorString ''provider resources may not be constructed''))
   \<and> GetPluginInfo registry0
     = Inr (\<lparr>info_Name = [], info_Path = [], info_Kind = [], info_Version = None\<rparr>,
            Some (ErrorString ''the provider registry does not report plugin info''))"
  by (simp add: Construct_def GetPluginInfo_def)

subsection \<open>Closing handles\<close>

text \<open>How the lists of loaded and of closed handles grow with the log of calls.\<close>

lemma loaded_append [simp]: "loaded (xs @ ys) = loaded xs @ loaded ys"
  by (simp add: loaded_def)

lemma closed_append [simp]: "closed (xs @ ys) = closed xs @ closed ys"
  by (simp add: closed_def)

lemma loaded_Nil [simp]: "loaded [] = []"
  by (simp add: loaded_def)

lemma loaded_Cons [simp]: "loaded (e # es) = loaded_of e @ loaded es"
  by (simp add: loaded_def)

lemma closed_Nil [simp]: "closed [] = []"
  by (simp add: closed_def)

lemma closed_Cons [simp]: "closed (e # es) = closed_of e @ closed es"
  by (simp add: closed_def)

lemma loaded_of_CallProvider [simp]:
  "loaded_of (CallProvider pkg version p err) =
     (if err = None \<and> p \<noteq> NilProvider then [p] else [])"
  by (cases err) auto

lemma UnknownID_not_empty: "UnknownID \<noteq> []"
  by (simp add: UnknownID_def)

text \<open>What each operation does to the map, to the loaded and to the closed handles.\<close>

lemma downloadAndInstall_effect:
  assumes "downloadAndInstall d pkg version downloadURL spec h = ((p, err), h1)"
  shows "closed (calls h1) = closed (calls h)
         \<and> loaded (calls h1) = loaded (calls h) @ (if err = None \<and> p \<noteq> NilProvider then [p] else [])"
  using assms
  by (auto simp: downloadAndInstall_def call_DownloadToFile_def call_Install_def call_Provider_def
      split: prod.splits option.splits if_splits)

lemma loadProvider_effect:
  assumes "loadProvider d pkg version downloadURL checksums h NilProvider = ((p, err), h1)"
  shows "closed (calls h1) = closed (calls h)
         \<and> loaded (calls h1) = loaded (calls h) @ (if err = None \<and> p \<noteq> NilProvider then [p] else [])"
  using assms
  by (auto simp: loadProvider_def call_Provider_def call_GetLatestVersion_def Let_def
      split: prod.splits option.splits if_splits dest!: downloadAndInstall_effect)


lemma Check_effect:
  assumes "Check d r urn olds news allowUnknowns = Inr ((inputs, failures, err), r1)"
      and "builtins r = NilProvider" and "aliases r = Map.empty"
  shows "aliases r1 = aliases r \<and> builtins r1 = builtins r \<and>
         (if failures = [] \<and> err = None
          then \<exists>p. p \<noteq> NilProvider
                 \<and> providers r1 = (providers r)(\<lparr>refURN = urn, refID = UnknownID\<rparr> \<mapsto> p)
                 \<and> loaded (calls (host r1)) = loaded (calls (host r)) @ [p]
                 \<and> closed (calls (host r1)) = closed (calls (host r))
          else providers r1 = providers r \<and>
               ((loaded (calls (host r1)) = loaded (calls (host r))
                 \<and> closed (calls (host r1)) = closed (calls (host r)))
                \<or> (\<exists>p. loaded (calls (host r1)) = loaded (calls (host r)) @ [p]
                       \<and> closed (calls (host r1)) = closed (calls (host r)) @ [p])))"
  using assms
  by (auto simp: Check_def call_CheckConfig_def call_CloseProvider_def setProvider_def
        mustNewReference_def NewReference_def Let_def
      split: prod.splits option.splits if_splits sum.splits
      dest!: loadProvider_effect)

lemma Diff_effect:
  assumes "Diff d r urn i olds news allowUnknowns ignoreChanges = Inr ((diff, err), r1)"
  shows "aliases r1 = aliases r \<and> builtins r1 = builtins r \<and> providers r1 = providers r
         \<and> loaded (calls (host r1)) = loaded (calls (host r))
         \<and> closed (calls (host r1)) =
             closed (calls (host r))
             @ (case providers r \<lparr>refURN = urn, refID = UnknownID\<rparr> of
                  None \<Rightarrow> []
                | Some p \<Rightarrow> if err = None \<and> Replace d diff then [p] else [])"
  using assms
  by (auto simp: Diff_def call_DiffConfig_def call_CloseProvider_def GetProvider_def
        mustNewReference_def NewReference_def Let_def
      split: prod.splits option.splits if_splits sum.splits)

lemma Create_effect:
  assumes "Create d r urn news preview = Inr ((i, outputs, status, err), r1)"
      and "aliases r = Map.empty"
  shows "aliases r1 = aliases r \<and> builtins r1 = builtins r
         \<and> loaded (calls (host r1)) = loaded (calls (host r))
         \<and> closed (calls (host r1)) = closed (calls (host r))
         \<and> (if err = None
            then i \<noteq> UnknownID
                 \<and> (\<exists>p. providers r \<lparr>refURN = urn, refID = UnknownID\<rparr> = Some p
                        \<and> providers r1 = (providers r)(\<lparr>refURN = urn, refID = i\<rparr> \<mapsto> p))
            else providers r1 = providers r)"
  using assms UnknownID_not_empty
  by (auto simp: Create_def Create_id_def call_Configure_def call_NewV4_def GetProvider_def
        setProvider_def mustNewReference_def NewReference_def Let_def
      split: prod.splits option.splits if_splits sum.splits)

lemma Update_effect:
  assumes "Update d r urn i olds news ignoreChanges preview = Inr ((outputs, status, err), r1)"
      and "aliases r = Map.empty"
  shows "aliases r1 = aliases r \<and> builtins r1 = builtins r
         \<and> loaded (calls (host r1)) = loaded (calls (host r))
         \<and> closed (calls (host r1)) = closed (calls (host r))
         \<and> (if err = None
            then (\<exists>p. providers r \<lparr>refURN = urn, refID = UnknownID\<rparr> = Some p
                        \<and> providers r1 = (providers r)(\<lparr>refURN = urn, refID = i\<rparr> \<mapsto> p))
            else providers r1 = providers r)"
  using assms
  by (auto simp: Update_def call_Configure_def GetProvider_def
        setProvider_def mustNewReference_def NewReference_def Let_def
      split: prod.splits option.splits if_splits sum.splits)

lemma Delete_effect:
  assumes "Delete d r urn i props = Inr ((status, err), r1)"
  shows "aliases r1 = aliases r \<and> builtins r1 = builtins r
         \<and> loaded (calls (host r1)) = loaded (calls (host r))
         \<and> (\<exists>p. providers r \<lparr>refURN = urn, refID = i\<rparr> = Some p
                \<and> providers r1 = (providers r)(\<lparr>refURN = urn, refID = i\<rparr> := None)
                \<and> closed (calls (host r1)) = closed (calls (host r)) @ [p])"
  using assms
  by (auto simp: Delete_def call_CloseProvider_def deleteProvider_def
        mustNewReference_def NewReference_def Let_def
      split: prod.splits option.splits if_splits sum.splits)

lemma Same_effect:
  assumes "aliases r = Map.empty"
  shows "Same d r ref = Inr r"
  using assms by (simp add: Same_def)


text \<open>Each operation the protocol allows keeps the registry consistent with the phases.\<close>

lemma consistent_close_fresh:
  assumes "consistent ph r"
      and "providers r1 = providers r" "aliases r1 = aliases r" "builtins r1 = builtins r"
      and "loaded (calls (host r1)) = loaded (calls (host r)) @ [p]"
      and "closed (calls (host r1)) = closed (calls (host r)) @ [p]"
      and "p \<notin> set (loaded (calls (host r)))"
  shows "consistent ph r1"
  using assms unfolding consistent_def
  apply (intro conjI)
          apply simp
         apply simp
        apply simp
       apply simp
      apply simp
     apply (simp, blast)
    apply simp
   apply (simp, blast)
  apply (simp, blast)
  done

lemma consistent_frame:
  assumes "consistent ph r"
      and "providers r1 = providers r" "aliases r1 = aliases r" "builtins r1 = builtins r"
      and "loaded (calls (host r1)) = loaded (calls (host r))"
      and "closed (calls (host r1)) = closed (calls (host r))"
  shows "consistent ph r1"
  using assms unfolding consistent_def by simp


lemma Check_consistent:
  assumes c: "consistent ph r"
      and run: "Check d r urn olds news allowUnknowns = Inr ((inputs, failures, err), r1)"
      and fresh: "distinct (loaded (calls (host r1)))"
  shows "consistent (advance d ph (OpCheck urn olds news allowUnknowns)
                       (ResCheck inputs failures err)) r1"
proof -
  from c have a: "aliases r = Map.empty" and b: "builtins r = NilProvider"
    by (simp_all add: consistent_def)
  note e = Check_effect [OF run b a]
  show ?thesis
  proof (cases "failures = [] \<and> err = None")
    case True
    with e obtain p where p: "p \<noteq> NilProvider"
      "providers r1 = (providers r)(\<lparr>refURN = urn, refID = UnknownID\<rparr> \<mapsto> p)"
      "loaded (calls (host r1)) = loaded (calls (host r)) @ [p]"
      "closed (calls (host r1)) = closed (calls (host r))"
      by auto
    from fresh p(3) have np: "p \<notin> set (loaded (calls (host r)))"
      by simp
    from c e True p np show ?thesis
      unfolding consistent_def live_def
      apply (simp (no_asm_simp))
      apply (intro conjI allI impI)
      apply auto
      done
  next
    case False
    with e have same: "providers r1 = providers r" "aliases r1 = aliases r"
      "builtins r1 = builtins r"
      by auto
    from False e consider
        "loaded (calls (host r1)) = loaded (calls (host r))"
        "closed (calls (host r1)) = closed (calls (host r))"
      | p where "loaded (calls (host r1)) = loaded (calls (host r)) @ [p]"
        "closed (calls (host r1)) = closed (calls (host r)) @ [p]"
      by auto
    then have "consistent ph r1"
    proof cases
      case 1
      with c same show ?thesis
        by (rule consistent_frame)
    next
      case 2
      from fresh 2(1) have "p \<notin> set (loaded (calls (host r)))"
        by simp
      with c same 2 show ?thesis
        by (rule consistent_close_fresh)
    qed
    with False show ?thesis
      by auto
  qed
qed

lemma consistent_retire:
  assumes c: "consistent ph r"
      and lv: "live ph ref0"
      and p: "providers r ref0 = Some p"
      and maps: "providers r1 = providers r \<or> providers r1 = (providers r)(ref0 := None)"
      and frame: "aliases r1 = aliases r" "builtins r1 = builtins r"
                 "loaded (calls (host r1)) = loaded (calls (host r))"
      and cl: "closed (calls (host r1)) = closed (calls (host r)) @ [p]"
      and ph': "\<And>ref. live ph' ref \<Longrightarrow> live ph ref \<and> ref \<noteq> ref0"
      and kn: "\<And>urn. UnknownID \<notin> known (ph' urn)"
      and nc: "\<And>urn. unknown (ph' urn) = NoCheck
                 \<Longrightarrow> providers r1 \<lparr>refURN = urn, refID = UnknownID\<rparr> = None"
  shows "consistent ph' r1"
proof -
  from c have ld: "\<And>ref q. providers r ref = Some q \<Longrightarrow> q \<in> set (loaded (calls (host r)))"
    and lc: "\<And>ref. live ph ref
               \<Longrightarrow> \<exists>q. providers r ref = Some q \<and> q \<notin> set (closed (calls (host r)))"
    and inj: "\<And>ref1 ref2. live ph ref1 \<Longrightarrow> live ph ref2
               \<Longrightarrow> providers r ref1 = providers r ref2 \<Longrightarrow> ref1 = ref2"
    and sub: "set (closed (calls (host r))) \<subseteq> set (loaded (calls (host r)))"
    and dis: "distinct (closed (calls (host r)))"
    and al: "aliases r = Map.empty" and bu: "builtins r = NilProvider"
    unfolding consistent_def by blast+
  have other: "providers r1 ref = providers r ref" if "ref \<noteq> ref0" for ref
    using maps that by auto
  have sm: "providers r ref = Some q" if "providers r1 ref = Some q" for ref q
    using maps that by (auto split: if_splits)
  have 1: "\<forall>ref q. providers r1 ref = Some q \<longrightarrow> q \<in> set (loaded (calls (host r1)))"
    using sm ld frame(3) by auto
  have 2: "\<forall>ref. live ph' ref
             \<longrightarrow> (\<exists>q. providers r1 ref = Some q \<and> q \<notin> set (closed (calls (host r1))))"
  proof (intro allI impI)
    fix ref assume "live ph' ref"
    then have a: "live ph ref" "ref \<noteq> ref0"
      using ph' by auto
    then obtain q where q: "providers r ref = Some q" "q \<notin> set (closed (calls (host r)))"
      using lc by blast
    have "q \<noteq> p"
      using inj [OF a(1) lv] q(1) p a(2) by auto
    with q other [OF a(2)] cl
    show "\<exists>q. providers r1 ref = Some q \<and> q \<notin> set (closed (calls (host r1)))"
      by auto
  qed
  have 3: "\<forall>ref1 ref2. live ph' ref1 \<and> live ph' ref2 \<and> providers r1 ref1 = providers r1 ref2
             \<longrightarrow> ref1 = ref2"
  proof (intro allI impI)
    fix ref1 ref2
    assume h: "live ph' ref1 \<and> live ph' ref2 \<and> providers r1 ref1 = providers r1 ref2"
    then have "live ph ref1" "ref1 \<noteq> ref0" "live ph ref2" "ref2 \<noteq> ref0"
      using ph' by auto
    with h other show "ref1 = ref2"
      using inj by auto
  qed
  have 4: "set (closed (calls (host r1))) \<subseteq> set (loaded (calls (host r1)))"
    using sub cl frame(3) ld [OF p] by auto
  have 5: "distinct (closed (calls (host r1)))"
    using dis cl lc [OF lv] p by auto
  from al bu frame kn nc 1 2 3 4 5 show ?thesis
    unfolding consistent_def by simp
qed

lemma Diff_consistent:
  assumes c: "consistent ph r"
      and l: "legal ph (OpDiff urn i olds news allowUnknowns ignoreChanges)"
      and ns: "\<not> replaces_spent d ph (OpDiff urn i olds news allowUnknowns ignoreChanges)
                   (ResDiff diff err)"
      and run: "Diff d r urn i olds news allowUnknowns ignoreChanges = Inr ((diff, err), r1)"
  shows "consistent (advance d ph (OpDiff urn i olds news allowUnknowns ignoreChanges)
                       (ResDiff diff err)) r1"
proof -
  note e = Diff_effect [OF run]
  then have same: "providers r1 = providers r" "aliases r1 = aliases r"
      "builtins r1 = builtins r" "loaded (calls (host r1)) = loaded (calls (host r))"
    by auto
  show ?thesis
  proof (cases "unknown (ph urn)")
    case NoCheck
    with c have "providers r \<lparr>refURN = urn, refID = UnknownID\<rparr> = None"
      by (simp add: consistent_def)
    with e have "closed (calls (host r1)) = closed (calls (host r))"
      by simp
    with c same have "consistent ph r1"
      by (rule consistent_frame)
    with NoCheck show ?thesis
      by simp
  next
    case Spent
    with ns have "\<not> (err = None \<and> Replace d diff)"
      by simp
    with e have "closed (calls (host r1)) = closed (calls (host r))"
      by (auto split: option.splits)
    with c same have "consistent ph r1"
      by (rule consistent_frame)
    with Spent show ?thesis
      by simp
  next
    case Checked
    then have lv: "live ph \<lparr>refURN = urn, refID = UnknownID\<rparr>"
      by (simp add: live_def)
    with c obtain p where p: "providers r \<lparr>refURN = urn, refID = UnknownID\<rparr> = Some p"
      unfolding consistent_def by blast
    show ?thesis
    proof (cases "err = None \<and> Replace d diff")
      case False
      with e p have "closed (calls (host r1)) = closed (calls (host r))"
        by auto
      with c same have "consistent ph r1"
        by (rule consistent_frame)
      with False show ?thesis
        by auto
    next
      case rep: True
      with e p have cl: "closed (calls (host r1)) = closed (calls (host r)) @ [p]"
        by auto
      let ?ph = "ph(urn := (ph urn)\<lparr>unknown := Spent\<rparr>)"
      from c have kn: "\<And>u. UnknownID \<notin> known (ph u)"
        and nc: "\<And>u. unknown (ph u) = NoCheck
                   \<Longrightarrow> providers r \<lparr>refURN = u, refID = UnknownID\<rparr> = None"
        unfolding consistent_def by blast+
      have "consistent ?ph r1"
      proof (rule consistent_retire [OF c lv p _ same(2,3,4) cl])
        show "providers r1 = providers r
              \<or> providers r1 = (providers r)(\<lparr>refURN = urn, refID = UnknownID\<rparr> := None)"
          using same(1) by simp
      next
        fix ref assume "live ?ph ref"
        then show "live ph ref \<and> ref \<noteq> \<lparr>refURN = urn, refID = UnknownID\<rparr>"
          using kn by (cases ref) (auto simp: live_def split: if_splits)
      next
        fix u show "UnknownID \<notin> known (?ph u)"
          using kn by simp
      next
        fix u assume "unknown (?ph u) = NoCheck"
        then show "providers r1 \<lparr>refURN = u, refID = UnknownID\<rparr> = None"
          using nc same(1) by (simp split: if_splits)
      qed
      with Checked rep show ?thesis
        by simp
    qed
  qed
qed

lemma Delete_consistent:
  assumes c: "consistent ph r"
      and l: "legal ph (OpDelete urn i props)"
      and run: "Delete d r urn i props = Inr ((status, err), r1)"
  shows "consistent (advance d ph (OpDelete urn i props) (ResDelete status err)) r1"
proof -
  from Delete_effect [OF run] obtain p where
    same: "aliases r1 = aliases r" "builtins r1 = builtins r"
          "loaded (calls (host r1)) = loaded (calls (host r))"
    and p: "providers r \<lparr>refURN = urn, refID = i\<rparr> = Some p"
    and m: "providers r1 = (providers r)(\<lparr>refURN = urn, refID = i\<rparr> := None)"
    and cl: "closed (calls (host r1)) = closed (calls (host r)) @ [p]"
    by auto
  from l have lv: "live ph \<lparr>refURN = urn, refID = i\<rparr>"
    by (simp add: live_def)
  from c have kn: "\<And>u. UnknownID \<notin> known (ph u)"
    and nc: "\<And>u. unknown (ph u) = NoCheck
               \<Longrightarrow> providers r \<lparr>refURN = u, refID = UnknownID\<rparr> = None"
    unfolding consistent_def by blast+
  from l kn have iu: "i \<noteq> UnknownID"
    by auto
  let ?ph = "ph(urn := (ph urn)\<lparr>known := known (ph urn) - {i}\<rparr>)"
  have "consistent ?ph r1"
  proof (rule consistent_retire [OF c lv p _ same cl])
    show "providers r1 = providers r
          \<or> providers r1 = (providers r)(\<lparr>refURN = urn, refID = i\<rparr> := None)"
      using m by simp
  next
    fix ref assume "live ?ph ref"
    then show "live ph ref \<and> ref \<noteq> \<lparr>refURN = urn, refID = i\<rparr>"
      using iu by (cases ref) (auto simp: live_def split: if_splits)
  next
    fix u show "UnknownID \<notin> known (?ph u)"
      using kn by simp
  next
    fix u assume "unknown (?ph u) = NoCheck"
    then show "providers r1 \<lparr>refURN = u, refID = UnknownID\<rparr> = None"
      using nc m by (simp split: if_splits)
  qed
  then show ?thesis
    by simp
qed

lemma consistent_publish:
  assumes c: "consistent ph r"
      and ck: "unknown (ph urn) = Checked"
      and i: "i \<noteq> UnknownID"
      and p: "providers r \<lparr>refURN = urn, refID = UnknownID\<rparr> = Some p"
      and m: "providers r1 = (providers r)(\<lparr>refURN = urn, refID = i\<rparr> \<mapsto> p)"
      and frame: "aliases r1 = aliases r" "builtins r1 = builtins r"
                 "loaded (calls (host r1)) = loaded (calls (host r))"
                 "closed (calls (host r1)) = closed (calls (host r))"
  shows "consistent (ph(urn := \<lparr>known = insert i (known (ph urn)), unknown = Spent\<rparr>)) r1"
    (is "consistent ?ph r1")
proof -
  let ?u = "\<lparr>refURN = urn, refID = UnknownID\<rparr>"
  let ?k = "\<lparr>refURN = urn, refID = i\<rparr>"
  from c have ld: "\<And>ref q. providers r ref = Some q \<Longrightarrow> q \<in> set (loaded (calls (host r)))"
    and lc: "\<And>ref. live ph ref
               \<Longrightarrow> \<exists>q. providers r ref = Some q \<and> q \<notin> set (closed (calls (host r)))"
    and inj: "\<And>ref1 ref2. live ph ref1 \<Longrightarrow> live ph ref2
               \<Longrightarrow> providers r ref1 = providers r ref2 \<Longrightarrow> ref1 = ref2"
    and sub: "set (closed (calls (host r))) \<subseteq> set (loaded (calls (host r)))"
    and dis: "distinct (closed (calls (host r)))"
    and al: "aliases r = Map.empty" and bu: "builtins r = NilProvider"
    and kn: "\<And>u. UnknownID \<notin> known (ph u)"
    and nc: "\<And>u. unknown (ph u) = NoCheck
               \<Longrightarrow> providers r \<lparr>refURN = u, refID = UnknownID\<rparr> = None"
    unfolding consistent_def by blast+
  have lu: "live ph ?u"
    using ck by (simp add: live_def)
  have uk: "?u \<noteq> ?k"
    using i by auto
  have lv': "ref = ?k \<or> (live ph ref \<and> ref \<noteq> ?u)" if "live ?ph ref" for ref
    using that kn i by (cases ref) (auto simp: live_def split: if_splits)
  have 0: "\<forall>u. UnknownID \<notin> known (?ph u)"
    using kn i by auto
  have n: "\<forall>u. unknown (?ph u) = NoCheck
             \<longrightarrow> providers r1 \<lparr>refURN = u, refID = UnknownID\<rparr> = None"
    using nc m i by auto
  have 1: "\<forall>ref q. providers r1 ref = Some q \<longrightarrow> q \<in> set (loaded (calls (host r1)))"
    using ld [OF p] ld m frame(3) by (auto split: if_splits)
  have pc: "p \<notin> set (closed (calls (host r)))"
    using lc [OF lu] p by auto
  have 2: "\<forall>ref. live ?ph ref
             \<longrightarrow> (\<exists>q. providers r1 ref = Some q \<and> q \<notin> set (closed (calls (host r1))))"
  proof (intro allI impI)
    fix ref assume "live ?ph ref"
    from lv' [OF this]
    show "\<exists>q. providers r1 ref = Some q \<and> q \<notin> set (closed (calls (host r1)))"
    proof
      assume "ref = ?k"
      with m pc frame(4) show ?thesis
        by simp
    next
      assume a: "live ph ref \<and> ref \<noteq> ?u"
      with lc obtain q where "providers r ref = Some q" "q \<notin> set (closed (calls (host r)))"
        by blast
      with m pc frame(4) show ?thesis
        by (cases "ref = ?k") auto
    qed
  qed
  have val: "providers r1 ref \<noteq> Some p" if "live ph ref" "ref \<noteq> ?u" "ref \<noteq> ?k" for ref
  proof
    assume "providers r1 ref = Some p"
    with m that(3) have "providers r ref = providers r ?u"
      using p by simp
    from inj [OF that(1) lu this] that(2) show False
      by simp
  qed
  have 3: "\<forall>ref1 ref2. live ?ph ref1 \<and> live ?ph ref2 \<and> providers r1 ref1 = providers r1 ref2
             \<longrightarrow> ref1 = ref2"
  proof (intro allI impI)
    fix ref1 ref2
    assume h: "live ?ph ref1 \<and> live ?ph ref2 \<and> providers r1 ref1 = providers r1 ref2"
    then have e: "providers r1 ref1 = providers r1 ref2"
      by simp
    from h lv' have c1: "ref1 = ?k \<or> (live ph ref1 \<and> ref1 \<noteq> ?u)"
      and c2: "ref2 = ?k \<or> (live ph ref2 \<and> ref2 \<noteq> ?u)"
      by blast+
    have k: "providers r1 ?k = Some p"
      using m by simp
    show "ref1 = ref2"
    proof (cases "ref1 = ?k")
      case True
      show ?thesis
      proof (cases "ref2 = ?k")
        case True
        with \<open>ref1 = ?k\<close> show ?thesis by simp
      next
        case False
        with c2 val [of ref2] have "providers r1 ref2 \<noteq> Some p"
          by blast
        with e k True show ?thesis
          by simp
      qed
    next
      case False
      show ?thesis
      proof (cases "ref2 = ?k")
        case True
        from False c1 val [of ref1] have "providers r1 ref1 \<noteq> Some p"
          by blast
        with e k True show ?thesis
          by simp
      next
        case f2: False
        with False m e have "providers r ref1 = providers r ref2"
          by simp
        with False f2 c1 c2 inj show ?thesis
          by blast
      qed
    qed
  qed
  have 4: "set (closed (calls (host r1))) \<subseteq> set (loaded (calls (host r1)))"
    using sub frame by simp
  have 5: "distinct (closed (calls (host r1)))"
    using dis frame by simp
  from al bu frame 0 n 1 2 3 4 5 show ?thesis
    unfolding consistent_def by simp
qed

lemma Create_consistent:
  assumes c: "consistent ph r"
      and l: "legal ph (OpCreate urn news preview)"
      and run: "Create d r urn news preview = Inr ((i, outputs, status, err), r1)"
  shows "consistent (advance d ph (OpCreate urn news preview)
                       (ResCreate i outputs status err)) r1"
proof -
  from c have al: "aliases r = Map.empty"
    by (simp add: consistent_def)
  note e = Create_effect [OF run al]
  then have same: "aliases r1 = aliases r" "builtins r1 = builtins r"
      "loaded (calls (host r1)) = loaded (calls (host r))"
      "closed (calls (host r1)) = closed (calls (host r))"
    by auto
  show ?thesis
  proof (cases "err = None")
    case False
    with e have "providers r1 = providers r"
      by simp
    with c have "consistent ph r1"
      using same by (rule consistent_frame)
    with False show ?thesis
      by auto
  next
    case True
    with e obtain p where i: "i \<noteq> UnknownID"
      and p: "providers r \<lparr>refURN = urn, refID = UnknownID\<rparr> = Some p"
      and m: "providers r1 = (providers r)(\<lparr>refURN = urn, refID = i\<rparr> \<mapsto> p)"
      by auto
    from l have "unknown (ph urn) = Checked"
      by simp
    from consistent_publish [OF c this i p m same] True show ?thesis
      by simp
  qed
qed

lemma Update_consistent:
  assumes c: "consistent ph r"
      and l: "legal ph (OpUpdate urn i olds news ignoreChanges preview)"
      and run: "Update d r urn i olds news ignoreChanges preview = Inr ((outputs, status, err), r1)"
  shows "consistent (advance d ph (OpUpdate urn i olds news ignoreChanges preview)
                       (ResUpdate outputs status err)) r1"
proof -
  from c have al: "aliases r = Map.empty"
    by (simp add: consistent_def)
  note e = Update_effect [OF run al]
  then have same: "aliases r1 = aliases r" "builtins r1 = builtins r"
      "loaded (calls (host r1)) = loaded (calls (host r))"
      "closed (calls (host r1)) = closed (calls (host r))"
    by auto
  show ?thesis
  proof (cases "err = None")
    case False
    with e have "providers r1 = providers r"
      by simp
    with c have "consistent ph r1"
      using same by (rule consistent_frame)
    with False show ?thesis
      by auto
  next
    case True
    with e obtain p where
          p: "providers r \<lparr>refURN = urn, refID = UnknownID\<rparr> = Some p"
      and m: "providers r1 = (providers r)(\<lparr>refURN = urn, refID = i\<rparr> \<mapsto> p)"
      by auto
    from l have "unknown (ph urn) = Checked" "i \<noteq> UnknownID"
      by simp_all
    from consistent_publish [OF c this p m same] True show ?thesis
      by simp
  qed
qed

lemma perform_consistent:
  assumes c: "consistent ph r"
      and l: "legal ph x"
      and ns: "\<not> replaces_spent d ph x res"
      and na: "\<not> is_RegisterAlias x"
      and run: "perform d r x = Inr (res, r1)"
      and fresh: "distinct (loaded (calls (host r1)))"
  shows "consistent (advance d ph x res) r1"
proof (cases x)
  case (OpCheck urn olds news allowUnknowns)
  with run obtain inputs failures err where
    "Check d r urn olds news allowUnknowns = Inr ((inputs, failures, err), r1)"
    "res = ResCheck inputs failures err"
    by (auto split: sum.splits)
  with Check_consistent [OF c this(1) fresh] OpCheck show ?thesis
    by simp
next
  case (OpDiff urn i olds news allowUnknowns ignoreChanges)
  with run obtain diff err where
    "Diff d r urn i olds news allowUnknowns ignoreChanges = Inr ((diff, err), r1)"
    "res = ResDiff diff err"
    by (auto split: sum.splits)
  with Diff_consistent [OF c _ _ this(1)] l ns OpDiff show ?thesis
    by simp
next
  case (OpSame ref)
  from c have "aliases r = Map.empty"
    by (simp add: consistent_def)
  with run OpSame c show ?thesis
    by (auto simp: Same_effect)
next
  case (OpCreate urn news preview)
  with run obtain i outputs status err where
    "Create d r urn news preview = Inr ((i, outputs, status, err), r1)"
    "res = ResCreate i outputs status err"
    by (auto split: sum.splits)
  with Create_consistent [OF c _ this(1)] l OpCreate show ?thesis
    by simp
next
  case (OpUpdate urn i olds news ignoreChanges preview)
  with run obtain outputs status err where
    "Update d r urn i olds news ignoreChanges preview = Inr ((outputs, status, err), r1)"
    "res = ResUpdate outputs status err"
    by (auto split: sum.splits)
  with Update_consistent [OF c _ this(1)] l OpUpdate show ?thesis
    by simp
next
  case (OpDelete urn i props)
  with run obtain status err where
    "Delete d r urn i props = Inr ((status, err), r1)"
    "res = ResDelete status err"
    by (auto split: sum.splits)
  with Delete_consistent [OF c _ this(1)] l OpDelete show ?thesis
    by simp
next
  case (OpRegisterAlias providerURN oldURN)
  with na show ?thesis
    by simp
qed


text \<open>The log of calls only grows.\<close>

lemma downloadAndInstall_calls:
  assumes "downloadAndInstall d pkg version downloadURL spec h = (res, h1)"
  shows "\<exists>es. calls h1 = calls h @ es"
  using assms
  by (auto simp: downloadAndInstall_def call_DownloadToFile_def call_Install_def call_Provider_def
      split: prod.splits option.splits)

lemma loadProvider_calls:
  assumes "loadProvider d pkg version downloadURL checksums h builtin = (res, h1)"
  shows "\<exists>es. calls h1 = calls h @ es"
  using assms
  by (auto simp: loadProvider_def call_Provider_def call_GetLatestVersion_def Let_def
      split: prod.splits option.splits if_splits dest!: downloadAndInstall_calls)

lemma perform_calls:
  assumes "perform d r x = Inr (res, r1)"
  shows "\<exists>es. calls (host r1) = calls (host r) @ es"
proof (cases x)
  case (OpCheck urn olds news allowUnknowns)
  with assms show ?thesis
    by (auto simp: Check_def call_CheckConfig_def call_CloseProvider_def setProvider_def
          mustNewReference_def NewReference_def Let_def
        split: prod.splits option.splits if_splits sum.splits
        dest!: loadProvider_calls)
next
  case (OpDiff urn i olds news allowUnknowns ignoreChanges)
  with assms show ?thesis
    by (auto simp: Diff_def call_DiffConfig_def call_CloseProvider_def GetProvider_def
          mustNewReference_def NewReference_def Let_def
        split: prod.splits option.splits if_splits sum.splits)
next
  case (OpSame ref)
  with assms show ?thesis
    by (auto simp: Same_def mustNewReference_def NewReference_def
        split: prod.splits option.splits if_splits sum.splits)
next
  case (OpCreate urn news preview)
  with assms show ?thesis
    by (auto simp: Create_def Create_id_def call_Configure_def call_NewV4_def GetProvider_def
          setProvider_def mustNewReference_def NewReference_def Let_def
        split: prod.splits option.splits if_splits sum.splits)
next
  case (OpUpdate urn i olds news ignoreChanges preview)
  with assms show ?thesis
    by (auto simp: Update_def call_Configure_def GetProvider_def
          setProvider_def mustNewReference_def NewReference_def Let_def
        split: prod.splits option.splits if_splits sum.splits)
next
  case (OpDelete urn i props)
  with assms show ?thesis
    by (auto simp: Delete_def call_CloseProvider_def deleteProvider_def
          mustNewReference_def NewReference_def Let_def
        split: prod.splits option.splits if_splits sum.splits)
next
  case (OpRegisterAlias providerURN oldURN)
  with assms show ?thesis
    by (auto simp: RegisterAlias_def)
qed

lemma run_calls:
  assumes "run d r xs = Inr r'"
  shows "\<exists>es. calls (host r') = calls (host r) @ es"
  using assms
proof (induction xs arbitrary: r)
  case Nil
  then show ?case by simp
next
  case (Cons x xs)
  then obtain res r1 where p: "perform d r x = Inr (res, r1)" and q: "run d r1 xs = Inr r'"
    by (auto split: sum.splits)
  from perform_calls [OF p] Cons.IH [OF q] show ?case
    by auto
qed

lemma run_consistent:
  assumes "consistent ph r"
      and "follows d ph r xs"
      and "list_all (\<lambda>x. \<not> is_RegisterAlias x) xs"
      and "run d r xs = Inr r'"
      and "distinct (loaded (calls (host r')))"
  shows "\<exists>ph'. consistent ph' r'"
  using assms
proof (induction xs arbitrary: ph r)
  case Nil
  then show ?case by auto
next
  case (Cons x xs)
  from Cons.prems(4) obtain res r1 where
    p: "perform d r x = Inr (res, r1)" and q: "run d r1 xs = Inr r'"
    by (auto split: sum.splits)
  from Cons.prems(2) p have l: "legal ph x" and ns: "\<not> replaces_spent d ph x res"
    and f: "follows d (advance d ph x res) r1 xs"
    by auto
  from Cons.prems(3) have na: "\<not> is_RegisterAlias x"
    and nas: "list_all (\<lambda>x. \<not> is_RegisterAlias x) xs"
    by auto
  from run_calls [OF q] obtain es where "calls (host r') = calls (host r1) @ es"
    by blast
  with Cons.prems(5) have fresh: "distinct (loaded (calls (host r1)))"
    by simp
  from perform_consistent [OF Cons.prems(1) l ns na p fresh]
  have "consistent (advance d ph x res) r1" .
  from Cons.IH [OF this f nas q Cons.prems(5)] show ?case .
qed


text \<open>NewRegistry builds a registry that is consistent with its initial phases.\<close>

lemma live_phase0: "live (phase0 r) ref \<longleftrightarrow> providers r ref \<noteq> None"
  by (cases ref) (simp add: live_def phase0_def)

lemma NewRegistry_loop_Cons:
  fixes r :: "'w Registry"
  assumes "NewRegistry_loop d r (res # prev) = Inr (r', None)"
      and "builtins r = NilProvider"
  shows "(NewRegistry_loop d r prev = Inr (r', None))
         \<or> (\<exists>provider (h1 :: 'w Host) w.
              state_ID res \<noteq> UnknownID
              \<and> providers r \<lparr>refURN = state_URN res, refID = state_ID res\<rparr> = None
              \<and> provider \<noteq> NilProvider
              \<and> loaded (calls h1) = loaded (calls (host r)) @ [provider]
              \<and> closed (calls h1) = closed (calls (host r))
              \<and> NewRegistry_loop d
                   (r\<lparr>host := \<lparr>world = w, calls = calls h1 @ [CallConfigure provider None]\<rparr>,
                      providers := (providers r)(\<lparr>refURN = state_URN res,
                                                   refID = state_ID res\<rparr> \<mapsto> provider)\<rparr>)
                   prev = Inr (r', None))"
proof (cases "IsProviderType d (urn_Type d (state_URN res))")
  case False
  with assms show ?thesis
    by simp
next
  case True
  with assms obtain version downloadURL provider h1 w where
        i: "state_ID res \<noteq> UnknownID"
    and n: "providers r \<lparr>refURN = state_URN res, refID = state_ID res\<rparr> = None"
    and l: "loadProvider d (GetProviderPackage d (urn_Type d (state_URN res))) version
              downloadURL [] (host r) NilProvider = ((provider, None), h1)"
    and p: "provider \<noteq> NilProvider"
    and rest: "NewRegistry_loop d
       (r\<lparr>host := \<lparr>world = w, calls = calls h1 @ [CallConfigure provider None]\<rparr>,
          providers := (providers r)(\<lparr>refURN = state_URN res,
                                       refID = state_ID res\<rparr> \<mapsto> provider)\<rparr>)
       prev = Inr (r', None)"
    by (auto simp: mustNewReference_def NewReference_def call_Configure_def
          call_CloseProvider_def
        split: prod.splits option.splits if_splits sum.splits)
  from loadProvider_effect [OF l] p
  have "loaded (calls h1) = loaded (calls (host r)) @ [provider]"
       "closed (calls h1) = closed (calls (host r))"
    by simp_all
  with i n p rest show ?thesis
    by blast
qed

lemma NewRegistry_loop_loaded:
  fixes r :: "'w Registry"
  assumes "NewRegistry_loop d r prev = Inr (r', None)"
      and "builtins r = NilProvider"
  shows "\<exists>ps. loaded (calls (host r')) = loaded (calls (host r)) @ ps"
  using assms
proof (induction prev arbitrary: r)
  case Nil
  then show ?case by simp
next
  case (Cons res prev)
  from NewRegistry_loop_Cons [OF Cons.prems] show ?case
  proof (elim disjE exE conjE)
    assume "NewRegistry_loop d r prev = Inr (r', None)"
    from Cons.IH [OF this Cons.prems(2)] show ?thesis .
  next
    fix provider and h1 :: "'w Host" and w :: 'w
    assume l: "loaded (calls h1) = loaded (calls (host r)) @ [provider]"
      and n: "NewRegistry_loop d
               (r\<lparr>host := \<lparr>world = w, calls = calls h1 @ [CallConfigure provider None]\<rparr>,
                  providers := (providers r)(\<lparr>refURN = state_URN res,
                                               refID = state_ID res\<rparr> \<mapsto> provider)\<rparr>)
               prev = Inr (r', None)"
    from Cons.IH [OF n] Cons.prems(2) l show ?thesis
      by auto
  qed
qed

lemma consistent_register:
  assumes c: "consistent (phase0 r) r"
      and i: "refID ref \<noteq> UnknownID"
      and l: "loaded (calls h2) = loaded (calls (host r)) @ [p]"
      and cl: "closed (calls h2) = closed (calls (host r))"
      and fresh: "distinct (loaded (calls h2))"
  shows "consistent (phase0 (r\<lparr>host := h2, providers := (providers r)(ref \<mapsto> p)\<rparr>))
           (r\<lparr>host := h2, providers := (providers r)(ref \<mapsto> p)\<rparr>)"
proof -
  define r1 where "r1 = r\<lparr>host := h2, providers := (providers r)(ref \<mapsto> p)\<rparr>"
  have r1: "host r1 = h2" "providers r1 = (providers r)(ref \<mapsto> p)"
           "aliases r1 = aliases r" "builtins r1 = builtins r"
    by (simp_all add: r1_def)
  from c have al: "aliases r = Map.empty" and bu: "builtins r = NilProvider"
    unfolding consistent_def by blast+
  from c have "\<forall>u. UnknownID \<notin> known (phase0 r u)"
    unfolding consistent_def by blast
  then have nc: "providers r \<lparr>refURN = u, refID = UnknownID\<rparr> = None" for u
    by (simp add: phase0_def)
  from c have ld: "providers r x = Some q \<Longrightarrow> q \<in> set (loaded (calls (host r)))" for x q
    unfolding consistent_def by blast
  from c have "\<forall>x. live (phase0 r) x
                 \<longrightarrow> (\<exists>q. providers r x = Some q \<and> q \<notin> set (closed (calls (host r))))"
    unfolding consistent_def by blast
  then have lc: "providers r x = Some q \<Longrightarrow> q \<notin> set (closed (calls (host r)))" for x q
    unfolding live_phase0 by fastforce
  from c have "\<forall>x y. live (phase0 r) x \<and> live (phase0 r) y \<and> providers r x = providers r y
                 \<longrightarrow> x = y"
    unfolding consistent_def by blast
  then have inj: "providers r x = Some q \<Longrightarrow> providers r y = Some q \<Longrightarrow> x = y" for x y q
    unfolding live_phase0 by (metis option.distinct(1))
  from c have sub: "set (closed (calls (host r))) \<subseteq> set (loaded (calls (host r)))"
    and dis: "distinct (closed (calls (host r)))"
    unfolding consistent_def by blast+
  from fresh l have np: "p \<notin> set (loaded (calls (host r)))"
    by simp
  with sub have pc: "p \<notin> set (closed (calls (host r)))"
    by blast
  have u: "\<lparr>refURN = urn, refID = UnknownID\<rparr> \<noteq> ref" for urn
    using i by auto
  have un: "providers r1 \<lparr>refURN = urn, refID = UnknownID\<rparr> = None" for urn
    using nc [of urn] u [of urn] by (simp add: r1)
  have 0: "\<forall>urn. UnknownID \<notin> known (phase0 r1 urn)"
    using un by (simp add: phase0_def)
  have n: "\<forall>urn. unknown (phase0 r1 urn) = NoCheck
             \<longrightarrow> providers r1 \<lparr>refURN = urn, refID = UnknownID\<rparr> = None"
    using un by simp
  have 1: "\<forall>x q. providers r1 x = Some q \<longrightarrow> q \<in> set (loaded (calls (host r1)))"
  proof (intro allI impI)
    fix x q assume "providers r1 x = Some q"
    then have "q = p \<or> providers r x = Some q"
      by (simp add: r1 split: if_splits)
    with ld [of x q] show "q \<in> set (loaded (calls (host r1)))"
      by (auto simp: r1 l)
  qed
  have 2: "\<forall>x. live (phase0 r1) x
             \<longrightarrow> (\<exists>q. providers r1 x = Some q \<and> q \<notin> set (closed (calls (host r1))))"
  proof (intro allI impI)
    fix x assume "live (phase0 r1) x"
    then obtain q where q: "providers r1 x = Some q"
      unfolding live_phase0 by blast
    then have "q = p \<or> providers r x = Some q"
      by (simp add: r1 split: if_splits)
    with lc [of x q] pc have "q \<notin> set (closed (calls (host r1)))"
      by (auto simp: r1 cl)
    with q show "\<exists>q. providers r1 x = Some q \<and> q \<notin> set (closed (calls (host r1)))"
      by blast
  qed
  have 3: "\<forall>x y. live (phase0 r1) x \<and> live (phase0 r1) y \<and> providers r1 x = providers r1 y
             \<longrightarrow> x = y"
  proof (intro allI impI)
    fix x y
    assume h: "live (phase0 r1) x \<and> live (phase0 r1) y \<and> providers r1 x = providers r1 y"
    then obtain q where q: "providers r1 x = Some q" "providers r1 y = Some q"
      unfolding live_phase0 by auto
    show "x = y"
    proof (cases "x = ref")
      case True
      with q(1) have qp: "q = p"
        by (simp add: r1)
      show ?thesis
      proof (cases "y = ref")
        case True
        with \<open>x = ref\<close> show ?thesis by simp
      next
        case False
        with q(2) qp have "providers r y = Some p"
          by (simp add: r1)
        with ld np show ?thesis
          by blast
      qed
    next
      case False
      with q(1) have x: "providers r x = Some q"
        by (simp add: r1)
      show ?thesis
      proof (cases "y = ref")
        case True
        with q(2) have "q = p"
          by (simp add: r1)
        with x ld np show ?thesis
          by blast
      next
        case f: False
        with q(2) have "providers r y = Some q"
          by (simp add: r1)
        with x show ?thesis
          by (rule inj)
      qed
    qed
  qed
  have 4: "set (closed (calls (host r1))) \<subseteq> set (loaded (calls (host r1)))"
    using sub by (auto simp: r1 l cl)
  have 5: "distinct (closed (calls (host r1)))"
    using dis by (simp add: r1 cl)
  from al bu r1(3,4) 0 n 1 2 3 4 5 have "consistent (phase0 r1) r1"
    unfolding consistent_def by simp
  then show ?thesis
    by (simp add: r1_def)
qed

lemma NewRegistry_loop_consistent:
  fixes r :: "'w Registry"
  assumes "NewRegistry_loop d r prev = Inr (r', None)"
      and "consistent (phase0 r) r"
      and "distinct (loaded (calls (host r')))"
  shows "consistent (phase0 r') r'"
  using assms
proof (induction prev arbitrary: r)
  case Nil
  then show ?case by simp
next
  case (Cons res prev)
  from Cons.prems(2) have bu: "builtins r = NilProvider"
    by (simp add: consistent_def)
  from NewRegistry_loop_Cons [OF Cons.prems(1) bu] show ?case
  proof (elim disjE exE conjE)
    assume "NewRegistry_loop d r prev = Inr (r', None)"
    from Cons.IH [OF this Cons.prems(2,3)] show ?thesis .
  next
    fix provider and h1 :: "'w Host" and w :: 'w
    let ?h2 = "\<lparr>world = w, calls = calls h1 @ [CallConfigure provider None]\<rparr>"
    let ?ref = "\<lparr>refURN = state_URN res, refID = state_ID res\<rparr>"
    let ?r = "r\<lparr>host := ?h2, providers := (providers r)(?ref \<mapsto> provider)\<rparr>"
    assume i: "state_ID res \<noteq> UnknownID"
      and l: "loaded (calls h1) = loaded (calls (host r)) @ [provider]"
      and cl: "closed (calls h1) = closed (calls (host r))"
      and n: "NewRegistry_loop d ?r prev = Inr (r', None)"
    from NewRegistry_loop_loaded [OF n] bu Cons.prems(3)
    have fresh: "distinct (loaded (calls ?h2))"
      by auto
    have "consistent (phase0 ?r) ?r"
      by (rule consistent_register [OF Cons.prems(2)]) (use i l cl fresh in simp_all)
    from Cons.IH [OF n this Cons.prems(3)] show ?thesis .
  qed
qed

lemma distinct_count_list: "distinct xs \<Longrightarrow> count_list xs x \<le> 1"
  by (induction xs) auto

text \<open>
  C1, as the code has it (single close under the protocol). Take a registry built by
  NewRegistry, without a built-in provider, on a host whose log of calls is empty, and a
  sequence of Check, Diff, Same, Create, Update and Delete, without RegisterAlias, that
  follows the protocol of \<open>follows\<close>: Create and Update only on a checked handle not
  yet consumed, Delete only of a known id, and no Diff that asks for the replacement of a
  handle already consumed. If the host never handed out the same handle twice, then
  host.CloseProvider was called at most once on every handle.
\<close>

theorem single_close:
  assumes new: "NewRegistry d h prev preview NilProvider = Inr ((Some r0, None), h0)"
      and log: "calls h = []"
      and prot: "follows d (phase0 r0) r0 xs"
      and noalias: "list_all (\<lambda>x. \<not> is_RegisterAlias x) xs"
      and run: "run d r0 xs = Inr r'"
      and fresh: "distinct (loaded (calls (host r')))"
  shows "count_list (closed (calls (host r'))) p \<le> 1"
proof -
  let ?init = "\<lparr>host = h, isPreview = preview, providers = Map.empty, builtins = NilProvider,
                 aliases = Map.empty\<rparr>"
  from new have loop: "NewRegistry_loop d ?init prev = Inr (r0, None)"
    by (auto simp: NewRegistry_def split: sum.splits prod.splits option.splits)
  have init: "consistent (phase0 ?init) ?init"
    using log by (simp add: consistent_def live_phase0 phase0_def)
  from run_calls [OF run] fresh have "distinct (loaded (calls (host r0)))"
    by auto
  from NewRegistry_loop_consistent [OF loop init this]
  have "consistent (phase0 r0) r0" .
  from run_consistent [OF this prot noalias run fresh]
  obtain ph' where "consistent ph' r'"
    by blast
  then have "distinct (closed (calls (host r')))"
    by (simp add: consistent_def)
  then show ?thesis
    by (rule distinct_count_list)
qed


text \<open>On the mock host: the engine's replacement of the provider taken over by
  \<open>registry_old\<close> follows the protocol; three handles are loaded, and the handle checked
  first and the old handle are closed, each once.\<close>

theorem single_close_witness:
  "handles mock registry_old replacement =
     Inr ([Plugin 0, Plugin 1, Plugin 2], [Plugin 1, Plugin 0])
   \<and> count_list (closed (calls (host (projr (run mock registry_old replacement)))))
         (Plugin 0) \<le> 1"
proof -
  have new: "NewRegistry mock \<lparr>world = 0, calls = []\<rparr> [old_state] False NilProvider =
               Inr ((Some registry_old, None), host registry_old)"
    by (simp add: NewRegistry_def old_state_def registry_defs mock_defs)
  have log: "calls \<lparr>world = 0 :: nat, calls = []\<rparr> = []"
    by simp
  have prot: "follows mock (phase0 registry_old) registry_old replacement"
    by (simp add: replacement_def phase0_def registry_defs mock_defs)
  have noalias: "list_all (\<lambda>x. \<not> is_RegisterAlias x) replacement"
    by (simp add: replacement_def)
  have run: "run mock registry_old replacement =
               Inr (projr (run mock registry_old replacement))"
    by (simp add: replacement_def registry_defs mock_defs)
  have h: "handles mock registry_old replacement =
             Inr ([Plugin 0, Plugin 1, Plugin 2], [Plugin 1, Plugin 0])"
    by (simp add: handles_def replacement_def registry_defs mock_defs)
  have fresh: "distinct (loaded (calls (host (projr (run mock registry_old replacement)))))"
    by (simp add: replacement_def registry_defs mock_defs)
  from single_close [OF new log prot noalias run fresh, of "Plugin 0"] h show ?thesis
    by blast
qed

text \<open>The claim C1 as stated fails. On the mock host, from the registry over no old
  resources: Check, Create, Diff with replacement and Delete on urnA run without a
  contract violation, load one handle and close it twice (the Diff finds the handle that
  Create left under the unknown id, and Delete finds it under the new id). And with an
  alias every step can follow the protocol: urnA renamed from urnB, each URN going through
  Check, Diff, Update and Delete, closes the handle of urnA twice (setProvider stored it
  under the old URN as well).\<close>

theorem single_close_counterexample:
  "handles mock registry0 diff_after_create = Inr ([Plugin 0], [Plugin 0, Plugin 0])
   \<and> count_list (closed (calls (host (projr (run mock registry0 diff_after_create)))))
         (Plugin 0) = 2
   \<and> follows mock (phase0 registry0) registry0 renamed
   \<and> handles mock registry0 renamed = Inr ([Plugin 0, Plugin 1], [Plugin 1, Plugin 1])
   \<and> count_list (closed (calls (host (projr (run mock registry0 renamed))))) (Plugin 1) = 2"
proof -
  have a: "handles mock registry0 diff_after_create = Inr ([Plugin 0], [Plugin 0, Plugin 0])"
    by (simp add: handles_def diff_after_create_def registry_defs mock_defs)
  have b: "count_list (closed (calls (host (projr (run mock registry0 diff_after_create)))))
             (Plugin 0) = 2"
    by (simp add: diff_after_create_def registry_defs mock_defs)
  have c: "follows mock (phase0 registry0) registry0 renamed"
    by (simp add: renamed_def phase0_def registry_defs mock_defs)
  have e: "handles mock registry0 renamed = Inr ([Plugin 0, Plugin 1], [Plugin 1, Plugin 1])"
    by (simp add: handles_def renamed_def registry_defs mock_defs)
  have f: "count_list (closed (calls (host (projr (run mock registry0 renamed))))) (Plugin 1) = 2"
    by (simp add: renamed_def registry_defs mock_defs)
  from a b c e f show ?thesis
    by blast
qed

end
